theory Spec2Isabelle
  imports Complex_Main "HOL-Library.Multiset" "HOL-Library.Char_ord"
begin

section \<open>The concurrent benchmark runner of pgbench\_python.py\<close>

text \<open>
  The development follows \<^verbatim>\<open>src/_python/pgbench_python.py\<close>. Python integers are
  \<^typ>\<open>int\<close>. The readings of \<^verbatim>\<open>time.monotonic()\<close> are exact rationals (seconds): the
  rounding error of floating-point arithmetic is not part of the model. Whatever the program
  gets from outside (clock readings, what a driver call returns or whether it raises) is an
  input of the model, and every \<^verbatim>\<open>raise\<close> is a value of type \<open>error\<close>.
\<close>

subsection \<open>Errors, latencies, observations\<close>

datatype error =
    ConnectionError        \<comment> \<open>the driver's \<^verbatim>\<open>connect\<close> raised\<close>
  | ExecutionError         \<comment> \<open>the driver's \<^verbatim>\<open>execute\<close> or \<^verbatim>\<open>copy\<close> raised\<close>
  | CloseError             \<comment> \<open>\<^verbatim>\<open>conn.close()\<close> raised\<close>
  | AdminError             \<comment> \<open>a call on the administrative asyncpg connection raised\<close>
  | IndexError
  | KeyError
  | TypeError
  | ValueError
  | AttributeError
  | UnboundLocalError
  | RuntimeError string
  | SystemExit int

text \<open>
  \<^verbatim>\<open>min_latency\<close> starts as \<^verbatim>\<open>float('inf')\<close> and is otherwise a Python integer
  (the result of \<^verbatim>\<open>round\<close>).
\<close>

datatype latency = Finite int | Infinity

fun lat_less :: "latency \<Rightarrow> latency \<Rightarrow> bool" where
  "lat_less (Finite a) (Finite b) = (a < b)"
| "lat_less (Finite a) Infinity = True"
| "lat_less Infinity b = False"

definition lat_le :: "latency \<Rightarrow> latency \<Rightarrow> bool" where
  "lat_le a b = (\<not> lat_less b a)"

text \<open>
  What one turn of a worker's loop observes: the clock reading of the loop condition, the
  reading stored in \<^verbatim>\<open>req_start\<close>, what the executor returns (\<open>None\<close>: it raises)
  and the reading after the call. The loop leaves at the first observation whose
  \<open>t_check\<close> is past the deadline; the other fields of that observation are not read.
\<close>

record iteration =
  t_check :: rat
  t_start :: rat
  outcome :: "int option"
  t_end :: rat

text \<open>Python's \<^verbatim>\<open>round(x)\<close> with one argument: to the nearest integer, ties to even.\<close>

definition py_round :: "rat \<Rightarrow> int" where
  "py_round x =
     (let f = \<lfloor>x\<rfloor>; d = x - of_int f
      in if d < 1 / 2 then f
         else if 1 / 2 < d then f + 1
         else if even f then f else f + 1)"

text \<open>
  \<^verbatim>\<open>req_time = round((time.monotonic() - req_start) * 1000 * 100)\<close>: the elapsed
  time in hundredths of a millisecond. The product is the exact one here; the code rounds
  the difference and each product to a double before \<^verbatim>\<open>round\<close>, so that at a reading
  whose exact product is within that rounding error of a tie (such as 7.5e-05 s) the code's
  bucket is the neighbour of this one. The statements below either hold for any value of
  \<open>req_time\<close> or are about samples at which the two agree.
\<close>

definition req_time :: "iteration \<Rightarrow> int" where
  "req_time ob = py_round ((t_end ob - t_start ob) * 1000 * 100)"

subsection \<open>The latency histogram\<close>

text \<open>\<^verbatim>\<open>np.zeros((n,))\<close>: a negative dimension raises \<^verbatim>\<open>ValueError\<close>.\<close>

definition np_zeros :: "int \<Rightarrow> error + int list" where
  "np_zeros n = (if n < 0 then Inl ValueError else Inr (replicate (nat n) 0))"

text \<open>
  \<^verbatim>\<open>latency_stats[req_time] += 1\<close> on a one-dimensional array: an index in
  \<open>[-n, 0)\<close> counts from the end, an index outside \<open>[-n, n)\<close> raises
  \<^verbatim>\<open>IndexError\<close>.
\<close>

definition np_index :: "nat \<Rightarrow> int \<Rightarrow> error + nat" where
  "np_index n i =
     (if 0 \<le> i \<and> i < int n then Inr (nat i)
      else if - int n \<le> i \<and> i < 0 then Inr (nat (int n + i))
      else Inl IndexError)"

definition bucket_incr :: "int list \<Rightarrow> int \<Rightarrow> error + int list" where
  "bucket_incr latency_stats i =
     (case np_index (length latency_stats) i of
        Inl e \<Rightarrow> Inl e
      | Inr k \<Rightarrow> Inr (latency_stats[k := latency_stats ! k + 1]))"

subsection \<open>The workers\<close>

text \<open>
  A worker returns the tuple
  \<^verbatim>\<open>queries, rows, latency_stats, min_latency, max_latency\<close>.
\<close>

type_synonym worker_result = "int \<times> int \<times> int list \<times> latency \<times> int"

text \<open>
  The \<^verbatim>\<open>while\<close> loop of \<^verbatim>\<open>worker\<close> and \<^verbatim>\<open>sync_worker\<close> (the two bodies are
  the same up to \<^verbatim>\<open>await\<close>); its local variables are the arguments. The result is
  \<open>None\<close> when the observations end while the loop is still running.
\<close>

fun worker_loop ::
  "rat \<Rightarrow> int \<Rightarrow> int \<Rightarrow> int \<Rightarrow> int list \<Rightarrow> latency \<Rightarrow> int \<Rightarrow> iteration list
     \<Rightarrow> (error + worker_result) option" where
  "worker_loop start duration queries rows latency_stats min_latency max_latency [] = None"
| "worker_loop start duration queries rows latency_stats min_latency max_latency (ob # obs) =
     (if t_check ob - start < of_int duration then
        (case outcome ob of
           None \<Rightarrow> Some (Inl ExecutionError)
         | Some n \<Rightarrow>
             (let rows' = rows + n;
                  max_latency' = (if req_time ob > max_latency then req_time ob
                                  else max_latency);
                  min_latency' = (if lat_less (Finite (req_time ob)) min_latency
                                  then Finite (req_time ob) else min_latency)
              in case bucket_incr latency_stats (req_time ob) of
                   Inl e \<Rightarrow> Some (Inl e)
                 | Inr latency_stats' \<Rightarrow>
                     worker_loop start duration (queries + 1) rows' latency_stats'
                       min_latency' max_latency' obs))
      else Some (Inr (queries, rows, latency_stats, min_latency, max_latency)))"

definition worker :: "rat \<Rightarrow> int \<Rightarrow> int \<Rightarrow> iteration list \<Rightarrow> (error + worker_result) option" where
  "worker start duration timeout obs =
     (case np_zeros (timeout * 100) of
        Inl e \<Rightarrow> Some (Inl e)
      | Inr latency_stats \<Rightarrow> worker_loop start duration 0 0 latency_stats Infinity 0 obs)"

definition sync_worker ::
  "rat \<Rightarrow> int \<Rightarrow> int \<Rightarrow> iteration list \<Rightarrow> (error + worker_result) option" where
  "sync_worker start duration timeout obs =
     (case np_zeros (timeout * 100) of
        Inl e \<Rightarrow> Some (Inl e)
      | Inr latency_stats \<Rightarrow> worker_loop start duration 0 0 latency_stats Infinity 0 obs)"

subsection \<open>Aggregation of the workers' results\<close>

text \<open>
  \<^verbatim>\<open>np.add\<close> on two one-dimensional arrays: equal shapes add element by element, an
  array of length one is broadcast, any other pair of shapes raises \<^verbatim>\<open>ValueError\<close>.
\<close>

definition np_add :: "int list \<Rightarrow> int list \<Rightarrow> error + int list" where
  "np_add a b =
     (if length a = length b then Inr (map2 (+) a b)
      else if length a = 1 then Inr (map (\<lambda>y. hd a + y) b)
      else if length b = 1 then Inr (map (\<lambda>x. x + hd b) a)
      else Inl ValueError)"

text \<open>
  The accumulators of the loop over \<^verbatim>\<open>results\<close>; \<^verbatim>\<open>latency_stats\<close> is
  \<^verbatim>\<open>None\<close> until the first result.
\<close>

type_synonym totals = "int \<times> int \<times> int list option \<times> latency \<times> int"

fun aggregate_loop ::
  "worker_result list \<Rightarrow> int \<Rightarrow> int \<Rightarrow> int list option \<Rightarrow> latency \<Rightarrow> int \<Rightarrow> error + totals" where
  "aggregate_loop [] queries rows latency_stats min_latency max_latency =
     Inr (queries, rows, latency_stats, min_latency, max_latency)"
| "aggregate_loop ((t_queries, t_rows, t_latency_stats, t_min_latency, t_max_latency) # results)
       queries rows latency_stats min_latency max_latency =
     (case (case latency_stats of
              None \<Rightarrow> Inr t_latency_stats
            | Some ls \<Rightarrow> np_add ls t_latency_stats) of
        Inl e \<Rightarrow> Inl e
      | Inr latency_stats' \<Rightarrow>
          aggregate_loop results (queries + t_queries) (rows + t_rows) (Some latency_stats')
            (if lat_less t_min_latency min_latency then t_min_latency else min_latency)
            (if t_max_latency > max_latency then t_max_latency else max_latency))"

definition aggregate :: "worker_result list \<Rightarrow> error + totals" where
  "aggregate results = aggregate_loop results 0 0 None Infinity 0"

subsection \<open>Query text\<close>

text \<open>
  Strings are ASCII. The classes \<^verbatim>\<open>\d\<close>, \<^verbatim>\<open>\w\<close> and \<^verbatim>\<open>\s\<close> of \<^verbatim>\<open>re\<close>
  are modelled on ASCII characters.
\<close>

definition is_digit :: "char \<Rightarrow> bool" where
  "is_digit c = (CHR ''0'' \<le> c \<and> c \<le> CHR ''9'')"

definition is_word :: "char \<Rightarrow> bool" where
  "is_word c =
     (is_digit c \<or> (CHR ''a'' \<le> c \<and> c \<le> CHR ''z'') \<or> (CHR ''A'' \<le> c \<and> c \<le> CHR ''Z'')
      \<or> c = CHR ''_'')"

definition is_space :: "char \<Rightarrow> bool" where
  "is_space c =
     (c = CHR '' '' \<or> (CHR 0x09 \<le> c \<and> c \<le> CHR 0x0D) \<or> (CHR 0x1C \<le> c \<and> c \<le> CHR 0x1F))"

definition startswith :: "string \<Rightarrow> string \<Rightarrow> bool" where
  "startswith s p = (take (length p) s = p)"

text \<open>\<^verbatim>\<open>re.sub(r'\$\d+', '%s', query)\<close>\<close>

function sub_placeholders :: "string \<Rightarrow> string" where
  "sub_placeholders [] = []"
| "sub_placeholders (c # cs) =
     (if c = CHR ''$'' \<and> takeWhile is_digit cs \<noteq> []
      then ''%s'' @ sub_placeholders (dropWhile is_digit cs)
      else c # sub_placeholders cs)"
  by pat_completeness auto
termination
  by (relation "measure length") (auto simp: length_dropWhile_le less_Suc_eq_le)

text \<open>
  The tail \<^verbatim>\<open>(?:,\s*\w+)*\<close> of the column list: the text it matches and what is
  left. The classes of the pattern are disjoint, so the greedy match is the only one that
  can succeed.
\<close>

function match_cols_tail :: "string \<Rightarrow> string \<times> string" where
  "match_cols_tail s =
     (case s of
        [] \<Rightarrow> ([], s)
      | c # s1 \<Rightarrow>
          if c = CHR '','' \<and> takeWhile is_word (dropWhile is_space s1) \<noteq> [] then
            (let sp = takeWhile is_space s1;
                 w = takeWhile is_word (dropWhile is_space s1);
                 (g, r) = match_cols_tail (dropWhile is_word (dropWhile is_space s1))
             in (c # sp @ w @ g, r))
          else ([], s))"
  by pat_completeness auto
termination
  by (relation "measure length")
     (auto simp: less_Suc_eq_le intro: order_trans [OF length_dropWhile_le length_dropWhile_le])

text \<open>
  \<^verbatim>\<open>re.match('COPY (\w+)\s*\(\s*((?:\w+)(?:,\s*\w+)*)\s*\)', query)\<close>: the groups 1
  and 2 of the match, if any.
\<close>

definition match_copy :: "string \<Rightarrow> (string \<times> string) option" where
  "match_copy query =
     (if startswith query ''COPY '' then
        (let r0 = drop 5 query;
             tab = takeWhile is_word r0
         in if tab = [] then None
            else case dropWhile is_space (dropWhile is_word r0) of
              [] \<Rightarrow> None
            | c # r1 \<Rightarrow>
                if c \<noteq> CHR ''('' then None
                else (let r2 = dropWhile is_space r1;
                          w = takeWhile is_word r2;
                          (g, r3) = match_cols_tail (dropWhile is_word r2)
                      in if w = [] then None
                         else case dropWhile is_space r3 of
                           [] \<Rightarrow> None
                         | c' # _ \<Rightarrow> if c' = CHR '')'' then Some (tab, w @ g) else None))
      else None)"

text \<open>\<^verbatim>\<open>s.split(',')\<close> and \<^verbatim>\<open>s.strip()\<close>\<close>

fun split_comma :: "string \<Rightarrow> string list" where
  "split_comma [] = [[]]"
| "split_comma (c # cs) =
     (if c = CHR '','' then [] # split_comma cs
      else (case split_comma cs of
              [] \<Rightarrow> [[c]]
            | w # ws \<Rightarrow> (c # w) # ws))"

definition strip :: "string \<Rightarrow> string" where
  "strip s = rev (dropWhile is_space (rev (dropWhile is_space s)))"

subsection \<open>The job description, the drivers and the outside world\<close>

text \<open>The values of the parsed query JSON (numbers are integers here).\<close>

datatype json =
    JNull
  | JBool bool
  | JInt int
  | JStr string
  | JList "json list"
  | JObj "(string \<times> json) list"

text \<open>
  The fields that \<^verbatim>\<open>querydata.get\<close> reads, typed as the job description has them;
  \<open>None\<close> is an absent key.
\<close>

record querydata =
  job_query :: "string option"
  job_args :: "json list option"
  job_setup :: "string option"
  job_teardown :: "string option"

text \<open>Python's truth value of an optional string: \<^verbatim>\<open>None\<close> and \<^verbatim>\<open>''\<close> are false.\<close>

definition truthy :: "string option \<Rightarrow> bool" where
  "truthy s = (case s of None \<Rightarrow> False | Some t \<Rightarrow> t \<noteq> [])"

record args =
  args_concurrency :: int
  args_duration :: int
  args_timeout :: int
  args_warmup_time :: int
  args_output_format :: string

text \<open>The driver functions, by name (\<^verbatim>\<open>aiopg_tuples_connect\<close> is \<^verbatim>\<open>aiopg_connect\<close>).\<close>

datatype driver_fn =
    psycopg_connect | psycopg_execute | psycopg_copy
  | pypostgresql_connect | pypostgresql_execute
  | aiopg_connect | aiopg_execute | aiopg_tuples_execute
  | asyncpg_connect | asyncpg_execute | asyncpg_copy

datatype pass = Warmup | Measured

text \<open>
  What the run does to the outside, in order. \<open>Launch\<close> is the creation of one worker
  task with the arguments it is given: the executor, \<^verbatim>\<open>[conns[i], query, query_args]\<close>,
  \<^verbatim>\<open>start\<close>, \<^verbatim>\<open>duration\<close> and \<^verbatim>\<open>timeout\<close>. A connection is named by the
  number of the \<^verbatim>\<open>connector\<close> call that opened it.
\<close>

datatype event =
    Connect nat
  | AdminConnect
  | AdminExecute string
  | Launch driver_fn nat string "json list" rat int int
  | Close nat
  | Fetchval string
  | Stderr_int int
  | Stderr string

text \<open>
  What the outside answers: whether each driver call succeeds, the row count that the
  administrative connection reports, the clock readings of \<^verbatim>\<open>_do_run\<close> and the
  observations of every worker of either pass.
\<close>

record env =
  connect_ok :: "nat \<Rightarrow> bool"
  close_ok :: "nat \<Rightarrow> bool"
  admin_connect_ok :: bool
  admin_execute_ok :: "string \<Rightarrow> bool"
  fetchval_result :: "int option"
  pass_start :: "pass \<Rightarrow> rat"
  pass_end :: "pass \<Rightarrow> rat"
  worker_obs :: "pass \<Rightarrow> nat \<Rightarrow> iteration list"

record report =
  rep_queries :: int
  rep_rows :: int
  rep_duration :: rat
  rep_min_latency :: latency
  rep_max_latency :: int
  rep_latency_stats :: "int list"
  rep_output_format :: string

subsection \<open>The runner\<close>

text \<open>
  Lines 162--176: the executor and the arguments of a COPY job. (The first message would
  have the executor's \<^verbatim>\<open>repr\<close> formatted in.)
  \<^verbatim>\<open>[query_info['row']] * query_info['count']\<close> needs a dictionary with both keys and
  an integer (or Boolean) count; a count below zero gives the empty list.
\<close>

definition copy_rows :: "json \<Rightarrow> error + json list" where
  "copy_rows query_info =
     (case query_info of
        JObj kv \<Rightarrow>
          (case map_of kv ''row'' of
             None \<Rightarrow> Inl KeyError
           | Some row \<Rightarrow>
               (case map_of kv ''count'' of
                  None \<Rightarrow> Inl KeyError
                | Some (JInt n) \<Rightarrow> Inr (replicate (nat n) row)
                | Some (JBool b) \<Rightarrow> Inr (replicate (if b then 1 else 0) row)
                | Some _ \<Rightarrow> Inl TypeError))
      | _ \<Rightarrow> Inl TypeError)"

definition prepare_copy ::
  "bool \<Rightarrow> driver_fn \<Rightarrow> driver_fn option \<Rightarrow> string \<Rightarrow> json list
     \<Rightarrow> error + driver_fn \<times> json list" where
  "prepare_copy is_copy executor copy_executor query query_args =
     (if is_copy then
        (case copy_executor of
           None \<Rightarrow> Inl (RuntimeError ''COPY is not supported for {}'')
         | Some ce \<Rightarrow>
             (case match_copy query of
                None \<Rightarrow> Inl (RuntimeError ''could not parse COPY query'')
              | Some (table, cols) \<Rightarrow>
                  (case query_args of
                     [] \<Rightarrow> Inl IndexError
                   | query_info # rest \<Rightarrow>
                       (case copy_rows query_info of
                          Inl e \<Rightarrow> Inl e
                        | Inr payload \<Rightarrow>
                            Inr (ce, JList payload # rest @
                              [JObj [(''table'', JStr table),
                                     (''columns'', JList (map (\<lambda>col. JStr (strip col))
                                                            (split_comma cols)))]])))))
      else Inr (executor, query_args))"

text \<open>Lines 180--185: the connections, opened one after the other.\<close>

fun connect_loop :: "env \<Rightarrow> nat list \<Rightarrow> nat list \<Rightarrow> event list \<times> (error + nat list)" where
  "connect_loop w [] conns = ([], Inr conns)"
| "connect_loop w (i # is) conns =
     (if connect_ok w i then
        (let (evs, r) = connect_loop w is (conns @ [i]) in (Connect i # evs, r))
      else ([], Inl ConnectionError))"

text \<open>Lines 227--231: the connections, closed one after the other.\<close>

fun close_loop :: "env \<Rightarrow> nat list \<Rightarrow> event list \<times> error option" where
  "close_loop w [] = ([], None)"
| "close_loop w (conn # conns) =
     (if close_ok w conn then
        (let (evs, r) = close_loop w conns in (Close conn # evs, r))
      else ([], Some CloseError))"

text \<open>
  The results of the tasks of one pass, joined: no result while a task is still running,
  the first error if a task raised, the results in the order of the tasks otherwise. (The
  thread pool hands the results over in no particular order, and \<^verbatim>\<open>asyncio.gather\<close>
  raises the error that comes first in time, without waiting for the other tasks; which
  error it is and the order of the results are read by no statement below.)
\<close>

fun gather :: "(error + 'a) option list \<Rightarrow> (error + 'a list) option" where
  "gather [] = Some (Inr [])"
| "gather (x # xs) =
     (case x of
        None \<Rightarrow> None
      | Some (Inl e) \<Rightarrow> (case gather xs of None \<Rightarrow> None | Some _ \<Rightarrow> Some (Inl e))
      | Some (Inr r) \<Rightarrow>
          (case gather xs of
             None \<Rightarrow> None
           | Some (Inl e) \<Rightarrow> Some (Inl e)
           | Some (Inr rs) \<Rightarrow> Some (Inr (r # rs))))"

text \<open>
  Lines 187--213, \<^verbatim>\<open>_do_run(run_duration)\<close>.
  \<^verbatim>\<open>ThreadPoolExecutor(max_workers=concurrency)\<close> raises \<^verbatim>\<open>ValueError\<close> unless
  \<^verbatim>\<open>concurrency\<close> is positive.
\<close>

definition do_run ::
  "env \<Rightarrow> args \<Rightarrow> driver_fn \<Rightarrow> bool \<Rightarrow> nat list \<Rightarrow> string \<Rightarrow> json list \<Rightarrow> int \<Rightarrow> pass \<Rightarrow> int
     \<Rightarrow> (event list \<times> (error + worker_result list \<times> rat)) option" where
  "do_run w args executor is_async conns query query_args timeout p run_duration =
     (let start = pass_start w p;
          concurrency = args_concurrency args
      in if is_async then
           (let evs = map (\<lambda>i. Launch executor (conns ! i) query query_args
                                   start (args_duration args) timeout)
                          [0..<nat concurrency]
            in case gather (map (\<lambda>i. worker start (args_duration args) timeout
                                         (worker_obs w p i))
                                [0..<nat concurrency]) of
                 None \<Rightarrow> None
               | Some (Inl e) \<Rightarrow> Some (evs, Inl e)
               | Some (Inr results) \<Rightarrow> Some (evs, Inr (results, pass_end w p - start)))
         else if concurrency \<le> 0 then Some ([], Inl ValueError)
         else
           (let evs = map (\<lambda>i. Launch executor (conns ! i) query query_args
                                   start run_duration timeout)
                          [0..<nat concurrency]
            in case gather (map (\<lambda>i. sync_worker start run_duration timeout
                                         (worker_obs w p i))
                                [0..<nat concurrency]) of
                 None \<Rightarrow> None
               | Some (Inl e) \<Rightarrow> Some (evs, Inl e)
               | Some (Inr results) \<Rightarrow> Some (evs, Inr (results, pass_end w p - start))))"

text \<open>Lines 222--225: the warm-up pass, if any, then the measured pass.\<close>

definition run_passes ::
  "env \<Rightarrow> args \<Rightarrow> driver_fn \<Rightarrow> bool \<Rightarrow> nat list \<Rightarrow> string \<Rightarrow> json list \<Rightarrow> int
     \<Rightarrow> (event list \<times> (error + worker_result list \<times> rat)) option" where
  "run_passes w args executor is_async conns query query_args timeout =
     (case (if args_warmup_time args \<noteq> 0
            then do_run w args executor is_async conns query query_args timeout
                   Warmup (args_warmup_time args)
            else Some ([], Inr ([], 0))) of
        None \<Rightarrow> None
      | Some (evs1, Inl e) \<Rightarrow> Some (evs1, Inl e)
      | Some (evs1, Inr _) \<Rightarrow>
          (case do_run w args executor is_async conns query query_args timeout
                  Measured (args_duration args) of
             None \<Rightarrow> None
           | Some (evs2, r) \<Rightarrow> Some (evs1 @ evs2, r)))"

text \<open>
  \<^verbatim>\<open>try: body finally: cleanup\<close>: the cleanup runs after the body, and an error of the
  cleanup replaces the outcome of the body.
\<close>

definition try_finally ::
  "event list \<times> (error + 'a) \<Rightarrow> event list \<times> error option \<Rightarrow> event list \<times> (error + 'a)" where
  "try_finally body cleanup =
     (fst body @ fst cleanup, case snd cleanup of Some e \<Rightarrow> Inl e | None \<Rightarrow> snd body)"

text \<open>
  Lines 215--218. The result tells whether the name \<^verbatim>\<open>admin_conn\<close> is bound.
\<close>

definition run_setup :: "env \<Rightarrow> string option \<Rightarrow> event list \<times> (error + bool)" where
  "run_setup w setup =
     (if truthy setup then
        (if \<not> admin_connect_ok w then ([], Inl AdminError)
         else if \<not> admin_execute_ok w (the setup) then ([AdminConnect], Inl AdminError)
         else ([AdminConnect, AdminExecute (the setup)], Inr True))
      else ([], Inr False))"

text \<open>Lines 280--281.\<close>

definition run_teardown :: "env \<Rightarrow> string option \<Rightarrow> bool \<Rightarrow> event list \<times> error option" where
  "run_teardown w teardown admin_conn =
     (if truthy teardown then
        (if \<not> admin_conn then ([], Some UnboundLocalError)
         else if \<not> admin_execute_ok w (the teardown) then ([], Some AdminError)
         else ([AdminExecute (the teardown)], None))
      else ([], None))"

text \<open>
  Lines 253--267: the check of a COPY job. \<^verbatim>\<open>query_args[-1]\<close> is the appended
  dictionary and \<^verbatim>\<open>query_args[0]\<close> the list of rows.
\<close>

definition copy_check ::
  "env \<Rightarrow> bool \<Rightarrow> json list \<Rightarrow> int \<Rightarrow> event list \<times> error option" where
  "copy_check w admin_conn query_args queries =
     (if \<not> admin_conn then ([], Some UnboundLocalError)
      else if query_args = [] then ([], Some IndexError)
      else case last query_args of
        JObj copyargs \<Rightarrow>
          (case map_of copyargs ''table'' of
             Some (JStr tabname) \<Rightarrow>
               (case fetchval_result w of
                  None \<Rightarrow> ([], Some AdminError)
                | Some rowcount \<Rightarrow>
                    (case hd query_args of
                       JList payload \<Rightarrow>
                         if rowcount < int (length payload) * queries
                         then ([Fetchval tabname, Stderr_int rowcount],
                               Some (RuntimeError
                                 ''COPY did not insert the expected number of rows''))
                         else ([Fetchval tabname, Stderr_int rowcount], None)
                     | _ \<Rightarrow> ([Fetchval tabname, Stderr_int rowcount], Some TypeError)))
           | _ \<Rightarrow> ([], Some KeyError))
      | _ \<Rightarrow> ([], Some TypeError))"

text \<open>Lines 233--277: what follows the passes inside the outer \<^verbatim>\<open>try\<close>.\<close>

definition make_report ::
  "env \<Rightarrow> args \<Rightarrow> bool \<Rightarrow> bool \<Rightarrow> json list \<Rightarrow> worker_result list \<times> rat
     \<Rightarrow> event list \<times> (error + report)" where
  "make_report w args is_copy admin_conn query_args rd =
     (case aggregate (fst rd) of
        Inl e \<Rightarrow> ([], Inl e)
      | Inr (queries, rows, latency_stats, min_latency, max_latency) \<Rightarrow>
          (case (if is_copy then copy_check w admin_conn query_args queries else ([], None)) of
             (evs, Some e) \<Rightarrow> (evs, Inl e)
           | (evs, None) \<Rightarrow>
               (case latency_stats of
                  None \<Rightarrow> (evs, Inl AttributeError)
                | Some ls \<Rightarrow>
                    (evs, Inr \<lparr>rep_queries = queries, rep_rows = rows,
                               rep_duration = snd rd,
                               rep_min_latency = min_latency,
                               rep_max_latency = max_latency,
                               rep_latency_stats = ls,
                               rep_output_format = args_output_format args\<rparr>))))"

text \<open>
  Lines 220--277, the body of the outer \<^verbatim>\<open>try\<close>, from the outcome of the passes
  on: the inner \<^verbatim>\<open>finally\<close> closes the connections, and the report is made if no
  error is on its way.
\<close>

definition try_body ::
  "env \<Rightarrow> args \<Rightarrow> bool \<Rightarrow> bool \<Rightarrow> json list \<Rightarrow> nat list
     \<Rightarrow> event list \<times> (error + worker_result list \<times> rat) \<Rightarrow> event list \<times> (error + report)" where
  "try_body w args is_copy admin_conn query_args conns passes =
     (let inner = try_finally passes (close_loop w conns)
      in case snd inner of
           Inl e \<Rightarrow> (fst inner, Inl e)
         | Inr rd \<Rightarrow>
             (let (evs, r) = make_report w args is_copy admin_conn query_args rd
              in (fst inner @ evs, r)))"

text \<open>Lines 157--158: the placeholders of the \<^verbatim>\<open>python\<close> argument format.\<close>

definition placeholder_query :: "string \<Rightarrow> string \<Rightarrow> string" where
  "placeholder_query arg_format query =
     (if arg_format = ''python'' then sub_placeholders query else query)"

text \<open>
  \<^verbatim>\<open>runner\<close>. The result is \<open>None\<close> when a worker never leaves its loop; otherwise
  it is what the run did and either the error that leaves \<^verbatim>\<open>runner\<close> or the report
  that it prints.
\<close>

definition runner ::
  "env \<Rightarrow> args \<Rightarrow> driver_fn \<Rightarrow> driver_fn \<Rightarrow> driver_fn option \<Rightarrow> bool \<Rightarrow> string \<Rightarrow> string
     \<Rightarrow> json list \<Rightarrow> string option \<Rightarrow> string option \<Rightarrow> (event list \<times> (error + report)) option" where
  "runner w args connector executor copy_executor is_async arg_format query0 query_args0
       setup teardown =
     (let timeout = args_timeout args * 1000;
          concurrency = args_concurrency args;
          query = placeholder_query arg_format query0;
          is_copy = startswith query ''COPY ''
      in case prepare_copy is_copy executor copy_executor query query_args0 of
           Inl e \<Rightarrow> Some ([], Inl e)
         | Inr (executor', query_args) \<Rightarrow>
             (case connect_loop w [0..<nat concurrency] [] of
                (evs1, Inl e) \<Rightarrow> Some (evs1, Inl e)
              | (evs1, Inr conns) \<Rightarrow>
                  (case run_setup w setup of
                     (evs2, Inl e) \<Rightarrow> Some (evs1 @ evs2, Inl e)
                   | (evs2, Inr admin_conn) \<Rightarrow>
                       (case run_passes w args executor' is_async conns query query_args
                               timeout of
                          None \<Rightarrow> None
                        | Some passes \<Rightarrow>
                            (let (evs3, r) =
                                   try_finally
                                     (try_body w args is_copy admin_conn query_args conns passes)
                                     (run_teardown w teardown admin_conn)
                             in Some (evs1 @ evs2 @ evs3, r))))))"

subsection \<open>The main program\<close>

text \<open>\<^verbatim>\<open>die(msg)\<close> prints to the standard error and leaves with status 1.\<close>

definition die :: "string \<Rightarrow> (event list \<times> (error + report)) option" where
  "die msg = Some ([Stderr (''fatal: '' @ msg)], Inl (SystemExit 1))"

definition quoted :: "string \<Rightarrow> string" where
  "quoted s = CHR 0x22 # s @ [CHR 0x22]"

text \<open>Lines 350--385: connector, executor, copy executor, \<^verbatim>\<open>is_async\<close>, \<^verbatim>\<open>arg_format\<close>.\<close>

definition select_driver ::
  "string \<Rightarrow> string \<Rightarrow> error + driver_fn \<times> driver_fn \<times> driver_fn option \<times> bool \<times> string" where
  "select_driver driver query =
     (if driver = ''aiopg'' then
        (if startswith query ''COPY ''
         then Inr (psycopg_connect, psycopg_execute, Some psycopg_copy, False, ''python'')
         else Inr (aiopg_connect, aiopg_execute, None, True, ''python''))
      else if driver = ''aiopg-tuples'' then
        (if startswith query ''COPY ''
         then Inr (psycopg_connect, psycopg_execute, Some psycopg_copy, False, ''python'')
         else Inr (aiopg_connect, aiopg_tuples_execute, None, True, ''python''))
      else if driver = ''asyncpg'' then
        Inr (asyncpg_connect, asyncpg_execute, Some asyncpg_copy, True, ''native'')
      else if driver = ''psycopg'' then
        Inr (psycopg_connect, psycopg_execute, Some psycopg_copy, False, ''python'')
      else if driver = ''postgresql'' then
        Inr (pypostgresql_connect, pypostgresql_execute, None, False, ''native'')
      else Inl ValueError)"

text \<open>Lines 335--389, from the parsed query JSON on.\<close>

definition main :: "env \<Rightarrow> args \<Rightarrow> string \<Rightarrow> querydata \<Rightarrow> (event list \<times> (error + report)) option" where
  "main w args driver qd =
     (if \<not> truthy (job_query qd) then die (''missing '' @ quoted ''query'' @ '' in query JSON'')
      else
        (let query = the (job_query qd);
             query_args = (case job_args qd of None \<Rightarrow> [] | Some a \<Rightarrow> a);
             setup = job_setup qd;
             teardown = job_teardown qd
         in if truthy setup \<and> \<not> truthy teardown
            then die (quoted ''setup'' @ '' is present, but '' @ quoted ''teardown'' @
                      '' is missing in query JSON'')
            else case select_driver driver query of
                   Inl e \<Rightarrow> Some ([], Inl e)
                 | Inr (connector, executor, copy_executor, is_async, arg_format) \<Rightarrow>
                     runner w args connector executor copy_executor is_async arg_format
                       query query_args setup teardown))"

subsection \<open>Notions used in the statements\<close>

text \<open>
  The observations of a worker let it leave its loop: one of them has a clock reading of
  the loop condition that is past the deadline.
\<close>

definition leaves_loop :: "rat \<Rightarrow> int \<Rightarrow> iteration list \<Rightarrow> bool" where
  "leaves_loop start duration obs =
     (\<exists>ob \<in> set obs. \<not> (t_check ob - start < of_int duration))"

text \<open>The same for every worker of the passes that a run makes.\<close>

definition passes_end :: "env \<Rightarrow> args \<Rightarrow> bool \<Rightarrow> bool" where
  "passes_end w args is_async =
     (\<forall>i < nat (args_concurrency args).
        (args_warmup_time args \<noteq> 0 \<longrightarrow>
           leaves_loop (pass_start w Warmup)
             (if is_async then args_duration args else args_warmup_time args)
             (worker_obs w Warmup i)) \<and>
        leaves_loop (pass_start w Measured) (args_duration args) (worker_obs w Measured i))"

fun is_launch :: "event \<Rightarrow> bool" where
  "is_launch (Launch ex c q qa s d t) = True"
| "is_launch ev = False"

fun is_admin :: "event \<Rightarrow> bool" where
  "is_admin AdminConnect = True"
| "is_admin (AdminExecute s) = True"
| "is_admin (Fetchval t) = True"
| "is_admin ev = False"

text \<open>
  An outside world in which every driver call succeeds, with the given observations of the
  workers; each pass starts at time 0.
\<close>

definition env_ok :: "(pass \<Rightarrow> nat \<Rightarrow> iteration list) \<Rightarrow> env" where
  "env_ok obs =
     \<lparr>connect_ok = (\<lambda>i. True), close_ok = (\<lambda>i. True), admin_connect_ok = True,
      admin_execute_ok = (\<lambda>s. True), fetchval_result = Some 0,
      pass_start = (\<lambda>p. 0), pass_end = (\<lambda>p. 1), worker_obs = obs\<rparr>"

text \<open>One turn of a worker: checked and started at \<open>t\<close>, \<open>n\<close> rows after \<open>dt\<close> seconds.\<close>

definition turn :: "rat \<Rightarrow> rat \<Rightarrow> int \<Rightarrow> iteration" where
  "turn t dt n = \<lparr>t_check = t, t_start = t, outcome = Some n, t_end = t + dt\<rparr>"

text \<open>A turn whose executor raises, and the reading at which a loop is left.\<close>

definition failing_turn :: "rat \<Rightarrow> iteration" where
  "failing_turn t = \<lparr>t_check = t, t_start = t, outcome = None, t_end = t\<rparr>"

definition leave_at :: "rat \<Rightarrow> iteration" where
  "leave_at t = \<lparr>t_check = t, t_start = t, outcome = None, t_end = t\<rparr>"

text \<open>
  The workers' minima are compared with \<open>lat_less\<close>; this is the linear order of the
  latencies, with \<^verbatim>\<open>float('inf')\<close> on top.
\<close>

instantiation latency :: linorder
begin

definition less_eq_latency :: "latency \<Rightarrow> latency \<Rightarrow> bool" where
  "less_eq_latency a b = lat_le a b"

definition less_latency :: "latency \<Rightarrow> latency \<Rightarrow> bool" where
  "less_latency a b = lat_less a b"

instance
proof
  fix x y z :: latency
  show "(x < y) = (x \<le> y \<and> \<not> y \<le> x)"
    by (cases x; cases y) (auto simp: less_eq_latency_def less_latency_def lat_le_def)
  show "x \<le> x"
    by (cases x) (auto simp: less_eq_latency_def lat_le_def)
  show "x \<le> y \<Longrightarrow> y \<le> z \<Longrightarrow> x \<le> z"
    by (cases x; cases y; cases z) (auto simp: less_eq_latency_def lat_le_def)
  show "x \<le> y \<Longrightarrow> y \<le> x \<Longrightarrow> x = y"
    by (cases x; cases y) (auto simp: less_eq_latency_def lat_le_def)
  show "x \<le> y \<or> y \<le> x"
    by (cases x; cases y) (auto simp: less_eq_latency_def lat_le_def)
qed

end

text \<open>The components of a worker's result.\<close>

fun res_queries :: "worker_result \<Rightarrow> int" where
  "res_queries (q, r, h, mn, mx) = q"

fun res_rows :: "worker_result \<Rightarrow> int" where
  "res_rows (q, r, h, mn, mx) = r"

fun res_stats :: "worker_result \<Rightarrow> int list" where
  "res_stats (q, r, h, mn, mx) = h"

fun res_min :: "worker_result \<Rightarrow> latency" where
  "res_min (q, r, h, mn, mx) = mn"

fun res_max :: "worker_result \<Rightarrow> int" where
  "res_max (q, r, h, mn, mx) = mx"

text \<open>The element-wise sum of the histograms (of \<open>n\<close> buckets) of a sequence of results.\<close>

definition hist_total :: "nat \<Rightarrow> worker_result list \<Rightarrow> int list" where
  "hist_total n rs = map (\<lambda>k. sum_list (map (\<lambda>r. res_stats r ! k) rs)) [0..<n]"

text \<open>
  The merge of a group of results, read as one result again. (The runner has the one loop
  over the flat sequence only; merging the merges of groups is the specification's test of
  the aggregation.)
\<close>

definition merged :: "worker_result list \<Rightarrow> worker_result option" where
  "merged g =
     (case aggregate g of
        Inr (q, r, Some ls, mn, mx) \<Rightarrow> Some (q, r, ls, mn, mx)
      | _ \<Rightarrow> None)"

text \<open>Concrete runs: arguments, jobs and observations.\<close>

definition small_args :: args where
  "small_args = \<lparr>args_concurrency = 2, args_duration = 1, args_timeout = 1,
                 args_warmup_time = 0, args_output_format = ''json''\<rparr>"

definition warm_args :: args where
  "warm_args = \<lparr>args_concurrency = 1, args_duration = 2, args_timeout = 1,
                args_warmup_time = 1, args_output_format = ''json''\<rparr>"

definition copy_args :: args where
  "copy_args = \<lparr>args_concurrency = 1, args_duration = 1, args_timeout = 1,
                args_warmup_time = 0, args_output_format = ''json''\<rparr>"

text \<open>
  The first worker of the measured pass makes two turns and its third call of the executor
  raises; every other worker leaves its loop at once.
\<close>

definition third_fails :: "pass \<Rightarrow> nat \<Rightarrow> iteration list" where
  "third_fails p i =
     (if p = Measured \<and> i = 0
      then [turn 0 (1 / 1000) 1, turn (1 / 10) (1 / 1000) 1, failing_turn (2 / 10)]
      else [leave_at 1])"

text \<open>A worker with a turn every half second, until two seconds have passed.\<close>

definition half_second_turns :: "iteration list" where
  "half_second_turns =
     [turn 0 (1 / 1000) 1, turn (1 / 2) (1 / 1000) 1, turn 1 (1 / 1000) 1,
      turn (3 / 2) (1 / 1000) 1, leave_at 2]"

definition setup_only :: querydata where
  "setup_only = \<lparr>job_query = Some ''select 1'', job_args = None,
                 job_setup = Some ''create table t (a int)'', job_teardown = None\<rparr>"

definition teardown_only :: querydata where
  "teardown_only = \<lparr>job_query = Some ''select 1'', job_args = None,
                    job_setup = None, job_teardown = Some ''drop table t''\<rparr>"

definition copy_job :: querydata where
  "copy_job = \<lparr>job_query = Some ''COPY t (a, b)'',
               job_args = Some [JObj [(''row'', JList [JInt 1, JStr ''x'']), (''count'', JInt 5)]],
               job_setup = None, job_teardown = None\<rparr>"

definition three_results :: "worker_result list" where
  "three_results =
     [(1, 2, [1, 0], Finite 5, 5), (2, 2, [1, 1], Finite 3, 7), (0, 0, [0, 0], Infinity, 0)]"



section \<open>Properties\<close>

subsection \<open>The workers and their histograms\<close>

lemma np_index_bound: "np_index n i = Inr k \<Longrightarrow> k < n"
  by (auto simp: np_index_def split: if_splits)

lemma bucket_incr_length: "bucket_incr h i = Inr h' \<Longrightarrow> length h' = length h"
  by (auto simp: bucket_incr_def split: sum.splits)

lemma sum_list_bump:
  "k < length h \<Longrightarrow> sum_list (h[k := h ! k + 1]) = sum_list h + (1::int)"
proof (induction h arbitrary: k)
  case Nil
  then show ?case by simp
next
  case (Cons x h)
  then show ?case by (cases k) simp_all
qed

lemma bucket_incr_sum: "bucket_incr h i = Inr h' \<Longrightarrow> sum_list h' = sum_list h + 1"
  by (auto simp: bucket_incr_def sum_list_bump dest!: np_index_bound split: sum.splits)

text \<open>One turn of the loop, for a result.\<close>

lemma worker_loop_turn:
  assumes "worker_loop s d q r h mn mx (ob # obs) = Some (Inr res)"
    and "t_check ob - s < of_int d"
  obtains n h1 where "outcome ob = Some n" and "bucket_incr h (req_time ob) = Inr h1"
    and "worker_loop s d (q + 1) (r + n) h1
           (if lat_less (Finite (req_time ob)) mn then Finite (req_time ob) else mn)
           (if req_time ob > mx then req_time ob else mx) obs = Some (Inr res)"
proof -
  from assms obtain n where n: "outcome ob = Some n"
    by (cases "outcome ob") auto
  from assms n obtain h1 where h1: "bucket_incr h (req_time ob) = Inr h1"
    by (cases "bucket_incr h (req_time ob)") (auto simp: Let_def)
  from assms n h1 have "worker_loop s d (q + 1) (r + n) h1
           (if lat_less (Finite (req_time ob)) mn then Finite (req_time ob) else mn)
           (if req_time ob > mx then req_time ob else mx) obs = Some (Inr res)"
    by (simp add: Let_def)
  with n h1 that show thesis by blast
qed

lemma worker_loop_invariant:
  assumes "worker_loop s d q r h mn mx obs = Some (Inr (q', r', h', mn', mx'))"
    and "P q h"
    and "\<And>q h i h1. P q h \<Longrightarrow> bucket_incr h i = Inr h1 \<Longrightarrow> P (q + 1) h1"
  shows "P q' h'"
  using assms(1,2)
proof (induction obs arbitrary: q r h mn mx)
  case Nil
  then show ?case by simp
next
  case (Cons ob obs)
  show ?case
  proof (cases "t_check ob - s < of_int d")
    case False
    with Cons.prems show ?thesis by simp
  next
    case True
    from Cons.prems(1) True show ?thesis
    proof (rule worker_loop_turn)
      fix n h1
      assume "bucket_incr h (req_time ob) = Inr h1"
        and "worker_loop s d (q + 1) (r + n) h1
           (if lat_less (Finite (req_time ob)) mn then Finite (req_time ob) else mn)
           (if req_time ob > mx then req_time ob else mx) obs = Some (Inr (q', r', h', mn', mx'))"
      then show ?thesis
        using Cons.IH assms(3) [OF Cons.prems(2)] by blast
    qed
  qed
qed

lemma worker_loop_sum:
  assumes "worker_loop s d 0 0 (replicate n 0) Infinity 0 obs = Some (Inr (q, r, h, mn, mx))"
  shows "sum_list h = q"
proof (rule worker_loop_invariant [OF assms, where P = "\<lambda>q h. sum_list h = q"])
  show "sum_list (replicate n 0) = (0::int)"
    by (simp add: sum_list_replicate)
next
  fix q h i h1
  assume "sum_list h = q" and "bucket_incr h i = Inr h1"
  then show "sum_list h1 = q + 1"
    by (simp add: bucket_incr_sum)
qed

lemma worker_loop_length:
  assumes "worker_loop s d q r h mn mx obs = Some (Inr (q', r', h', mn', mx'))"
  shows "length h' = length h"
proof (rule worker_loop_invariant [OF assms, where P = "\<lambda>q h1. length h1 = length h"])
  show "length h = length h" ..
next
  fix q h0 i h1
  assume "length h0 = length h" and "bucket_incr h0 i = Inr h1"
  then show "length h1 = length h"
    by (simp add: bucket_incr_length)
qed

text \<open>The samples of the turns that the loop makes are all in range, for a result.\<close>

lemma worker_loop_in_range:
  assumes "worker_loop s d q r h mn mx obs = Some (Inr res)"
    and "ob \<in> set (takeWhile (\<lambda>ob. t_check ob - s < of_int d) obs)"
  shows "\<exists>k. np_index (length h) (req_time ob) = Inr k"
  using assms
proof (induction obs arbitrary: q r h mn mx)
  case Nil
  then show ?case by simp
next
  case (Cons ob' obs)
  from Cons.prems(2) have c: "t_check ob' - s < of_int d"
    by (auto split: if_splits)
  from Cons.prems(1) c show ?case
  proof (rule worker_loop_turn)
    fix n h1
    assume h1: "bucket_incr h (req_time ob') = Inr h1"
      and w: "worker_loop s d (q + 1) (r + n) h1
           (if lat_less (Finite (req_time ob')) mn then Finite (req_time ob') else mn)
           (if req_time ob' > mx then req_time ob' else mx) obs = Some (Inr res)"
    show ?thesis
    proof (cases "ob = ob'")
      case True
      with h1 show ?thesis
        by (auto simp: bucket_incr_def split: sum.splits)
    next
      case False
      with Cons.prems(2) c have "ob \<in> set (takeWhile (\<lambda>ob. t_check ob - s < of_int d) obs)"
        by simp
      from Cons.IH [OF w this] bucket_incr_length [OF h1] show ?thesis by simp
    qed
  qed
qed

text \<open>
  A sample out of range among the turns, none of whose executor calls raises: the loop
  ends in \<^verbatim>\<open>IndexError\<close>.
\<close>

lemma worker_loop_index_error:
  assumes "\<forall>ob \<in> set (takeWhile (\<lambda>ob. t_check ob - s < of_int d) obs). outcome ob \<noteq> None"
    and "ob \<in> set (takeWhile (\<lambda>ob. t_check ob - s < of_int d) obs)"
    and "np_index (length h) (req_time ob) = Inl IndexError"
  shows "worker_loop s d q r h mn mx obs = Some (Inl IndexError)"
  using assms
proof (induction obs arbitrary: q r h mn mx)
  case Nil
  then show ?case by simp
next
  case (Cons ob' obs)
  from Cons.prems(2) have c: "t_check ob' - s < of_int d"
    by (auto split: if_splits)
  with Cons.prems(1) obtain n where n: "outcome ob' = Some n"
    by auto
  from Cons.prems(1) c
  have rest: "\<forall>ob \<in> set (takeWhile (\<lambda>ob. t_check ob - s < of_int d) obs). outcome ob \<noteq> None"
    by simp
  show ?case
  proof (cases "bucket_incr h (req_time ob')")
    case (Inl e)
    then have "e = IndexError"
      by (auto simp: bucket_incr_def np_index_def split: sum.splits if_splits)
    with Inl n c show ?thesis by (simp add: Let_def)
  next
    case (Inr h1)
    then have "ob \<noteq> ob'"
      using Cons.prems(3) by (auto simp: bucket_incr_def split: sum.splits)
    with Cons.prems(2) c have "ob \<in> set (takeWhile (\<lambda>ob. t_check ob - s < of_int d) obs)"
      by simp
    moreover from Cons.prems(3) bucket_incr_length [OF Inr]
    have "np_index (length h1) (req_time ob) = Inl IndexError" by simp
    ultimately show ?thesis
      using Cons.IH [OF rest] Inr n c by (simp add: Let_def)
  qed
qed

text \<open>An increment goes to one bucket of the histogram.\<close>

lemma bucket_incr_bucket:
  assumes "bucket_incr h i = Inr h'"
  shows "\<exists>k < length h. h' = h[k := h ! k + 1]"
  using assms by (auto simp: bucket_incr_def split: sum.splits dest: np_index_bound)

lemma sync_worker_eq: "sync_worker s d t obs = worker s d t obs"
  by (simp add: sync_worker_def worker_def)

lemma worker_sum:
  assumes "worker s d t obs = Some (Inr (q, r, h, mn, mx))"
  shows "sum_list h = q"
proof -
  from assms have "worker_loop s d 0 0 (replicate (nat (t * 100)) 0) Infinity 0 obs
      = Some (Inr (q, r, h, mn, mx))"
    by (simp add: worker_def np_zeros_def split: if_splits)
  then show ?thesis by (rule worker_loop_sum)
qed

text \<open>
  Claim C7. For the result that a worker (of either kind) returns, the counts of all
  buckets of its histogram add up to the number of queries it reports.
\<close>

theorem worker_histogram_sum:
  "(worker s d t obs = Some (Inr (q, r, h, mn, mx)) \<longrightarrow> sum_list h = q) \<and>
   (sync_worker s d t obs = Some (Inr (q, r, h, mn, mx)) \<longrightarrow> sum_list h = q)"
  by (simp add: sync_worker_eq worker_sum)

lemma two_samples:
  "worker 0 1 1
     [\<lparr>t_check = 0, t_start = 0, outcome = Some 1, t_end = 1 / 2000\<rparr>,
      \<lparr>t_check = 1 / 2, t_start = 1 / 2, outcome = Some 3, t_end = 1 / 2 + 1 / 4000\<rparr>,
      \<lparr>t_check = 1, t_start = 1, outcome = None, t_end = 1\<rparr>]
   = Some (Inr (2, 4, (replicate 100 0)[50 := 1, 25 := 1], Finite 25, 50))"
  by (simp add: worker_def np_zeros_def bucket_incr_def np_index_def req_time_def
      py_round_def Let_def)

theorem worker_histogram_sum_witness:
  "worker 0 1 1
     [\<lparr>t_check = 0, t_start = 0, outcome = Some 1, t_end = 1 / 2000\<rparr>,
      \<lparr>t_check = 1 / 2, t_start = 1 / 2, outcome = Some 3, t_end = 1 / 2 + 1 / 4000\<rparr>,
      \<lparr>t_check = 1, t_start = 1, outcome = None, t_end = 1\<rparr>]
   = Some (Inr (2, 4, (replicate 100 0)[50 := 1, 25 := 1], Finite 25, 50))
   \<and> sync_worker 0 1 1
     [\<lparr>t_check = 0, t_start = 0, outcome = Some 1, t_end = 1 / 2000\<rparr>,
      \<lparr>t_check = 1 / 2, t_start = 1 / 2, outcome = Some 3, t_end = 1 / 2 + 1 / 4000\<rparr>,
      \<lparr>t_check = 1, t_start = 1, outcome = None, t_end = 1\<rparr>]
   = Some (Inr (2, 4, (replicate 100 0)[50 := 1, 25 := 1], Finite 25, 50))
   \<and> sum_list ((replicate 100 0)[50 := 1, 25 := 1]) = (2::int)"
  using worker_histogram_sum [of 0 1 1
     "[\<lparr>t_check = 0, t_start = 0, outcome = Some 1, t_end = 1 / 2000\<rparr>,
      \<lparr>t_check = 1 / 2, t_start = 1 / 2, outcome = Some 3, t_end = 1 / 2 + 1 / 4000\<rparr>,
      \<lparr>t_check = 1, t_start = 1, outcome = None, t_end = 1\<rparr>]"
     2 4 "(replicate 100 0)[50 := 1, 25 := 1]" "Finite 25" 50]
    two_samples
  by (simp only: sync_worker_eq simp_thms)

lemma worker_length:
  assumes "worker s d t obs = Some (Inr (q, r, h, mn, mx))"
  shows "int (length h) = t * 100"
proof -
  from assms have t: "0 \<le> t * 100"
    and "worker_loop s d 0 0 (replicate (nat (t * 100)) 0) Infinity 0 obs
      = Some (Inr (q, r, h, mn, mx))"
    by (simp_all add: worker_def np_zeros_def split: if_splits)
  from worker_loop_length [OF this(2)] t show ?thesis by simp
qed

text \<open>
  Claim C1, as amended. The runner gives its workers \<^verbatim>\<open>args.timeout * 1000\<close>, so
  the histogram has \<open>timeoutSeconds * 100000\<close> buckets. For a worker that returns, the
  bucket index of every sample of its turns is at most \<open>timeoutSeconds * 100000 - 1\<close>.
  Whether the worker returns or not, every increment of a histogram of the worker's length
  goes to one bucket with an index of at most \<open>timeoutSeconds * 100000 - 1\<close> and keeps the
  length. When no executor call of the turns raises and a sample of one of the turns is
  \<open>timeoutSeconds * 100000\<close> or more, the worker ends in \<^verbatim>\<open>IndexError\<close>: no bucket
  out of range is written and no result is returned. All of this holds of
  \<^verbatim>\<open>sync_worker\<close> as well, which is the same function.
\<close>

theorem histogram_bucket_range:
  "(worker s d (ts * 1000) obs = Some (Inr (q, r, h, mn, mx)) \<longrightarrow>
      int (length h) = ts * 100000 \<and>
      (\<forall>ob \<in> set (takeWhile (\<lambda>ob. t_check ob - s < of_int d) obs).
         \<exists>k. np_index (length h) (req_time ob) = Inr k \<and> int k \<le> ts * 100000 - 1))
   \<and> (np_zeros (ts * 1000 * 100) = Inr h0 \<and> length h1 = length h0 \<and> bucket_incr h1 i = Inr h2 \<longrightarrow>
        length h2 = length h0 \<and>
        (\<exists>k. int k \<le> ts * 100000 - 1 \<and> h2 = h1[k := h1 ! k + 1]))
   \<and> (0 \<le> ts \<and>
        (\<forall>ob \<in> set (takeWhile (\<lambda>ob. t_check ob - s < of_int d) obs). outcome ob \<noteq> None) \<and>
        (\<exists>ob \<in> set (takeWhile (\<lambda>ob. t_check ob - s < of_int d) obs).
           ts * 100000 \<le> req_time ob) \<longrightarrow>
        worker s d (ts * 1000) obs = Some (Inl IndexError))
   \<and> sync_worker s d (ts * 1000) obs = worker s d (ts * 1000) obs"
proof (intro conjI impI ballI)
  assume w: "worker s d (ts * 1000) obs = Some (Inr (q, r, h, mn, mx))"
  from worker_length [OF w] show len: "int (length h) = ts * 100000" by simp
  fix ob
  assume ob: "ob \<in> set (takeWhile (\<lambda>ob. t_check ob - s < of_int d) obs)"
  from w have wl: "worker_loop s d 0 0 (replicate (nat (ts * 1000 * 100)) 0) Infinity 0 obs
      = Some (Inr (q, r, h, mn, mx))"
    by (simp add: worker_def np_zeros_def split: if_splits)
  from worker_loop_in_range [OF wl ob] worker_loop_length [OF wl]
  obtain k where k: "np_index (length h) (req_time ob) = Inr k" by auto
  from np_index_bound [OF k] len have "int k \<le> ts * 100000 - 1" by simp
  with k show "\<exists>k. np_index (length h) (req_time ob) = Inr k \<and> int k \<le> ts * 100000 - 1"
    by blast
next
  assume a: "np_zeros (ts * 1000 * 100) = Inr h0 \<and> length h1 = length h0
      \<and> bucket_incr h1 i = Inr h2"
  then have l: "int (length h1) = ts * 100000"
    by (auto simp: np_zeros_def split: if_splits)
  from a bucket_incr_length [of h1 i h2] show "length h2 = length h0" by simp
  from a bucket_incr_bucket [of h1 i h2] obtain k
    where "k < length h1" and "h2 = h1[k := h1 ! k + 1]" by blast
  with l show "\<exists>k. int k \<le> ts * 100000 - 1 \<and> h2 = h1[k := h1 ! k + 1]"
    by (intro exI [of _ k]) simp
next
  assume a: "0 \<le> ts \<and>
        (\<forall>ob \<in> set (takeWhile (\<lambda>ob. t_check ob - s < of_int d) obs). outcome ob \<noteq> None) \<and>
        (\<exists>ob \<in> set (takeWhile (\<lambda>ob. t_check ob - s < of_int d) obs).
           ts * 100000 \<le> req_time ob)"
  then obtain ob where ob: "ob \<in> set (takeWhile (\<lambda>ob. t_check ob - s < of_int d) obs)"
    and big: "ts * 100000 \<le> req_time ob" by blast
  from a have ts: "0 \<le> ts"
    and out: "\<forall>ob \<in> set (takeWhile (\<lambda>ob. t_check ob - s < of_int d) obs). outcome ob \<noteq> None"
    by blast+
  from big ts
  have "np_index (length (replicate (nat (ts * 1000 * 100)) (0::int))) (req_time ob)
      = Inl IndexError"
    by (simp add: np_index_def)
  from worker_loop_index_error [OF out ob this, of 0 0 Infinity 0] ts
  show "worker s d (ts * 1000) obs = Some (Inl IndexError)"
    by (simp add: worker_def np_zeros_def)
next
  show "sync_worker s d (ts * 1000) obs = worker s d (ts * 1000) obs"
    by (rule sync_worker_eq)
qed

lemma one_sample:
  "worker 0 1 (2 * 1000)
     [\<lparr>t_check = 0, t_start = 0, outcome = Some 1, t_end = 1 / 100\<rparr>,
      \<lparr>t_check = 1, t_start = 1, outcome = None, t_end = 1\<rparr>]
   = Some (Inr (1, 1, (replicate 200000 0)[1000 := 1], Finite 1000, 1000))"
  by (simp add: worker_def np_zeros_def bucket_incr_def np_index_def req_time_def
      py_round_def Let_def)

theorem histogram_bucket_range_witness:
  "worker 0 1 (2 * 1000)
     [\<lparr>t_check = 0, t_start = 0, outcome = Some 1, t_end = 1 / 100\<rparr>,
      \<lparr>t_check = 1, t_start = 1, outcome = None, t_end = 1\<rparr>]
   = Some (Inr (1, 1, (replicate 200000 0)[1000 := 1], Finite 1000, 1000))
   \<and> int (length ((replicate 200000 (0::int))[1000 := 1])) = 2 * 100000
   \<and> (\<exists>k. np_index (length ((replicate 200000 (0::int))[1000 := 1]))
             (req_time \<lparr>t_check = 0, t_start = 0, outcome = Some 1, t_end = 1 / 100\<rparr>) = Inr k
          \<and> int k \<le> 2 * 100000 - 1)
   \<and> bucket_incr (replicate 100000 0) 1000 = Inr ((replicate 100000 0)[1000 := 1])
   \<and> length ((replicate 100000 (0::int))[1000 := 1]) = length (replicate 100000 (0::int))
   \<and> (\<exists>k. int k \<le> 1 * 100000 - 1 \<and>
          (replicate 100000 (0::int))[1000 := 1]
            = (replicate 100000 0)[k := replicate 100000 0 ! k + 1])
   \<and> (1::int) * 100000 \<le> req_time \<lparr>t_check = 0, t_start = 0, outcome = Some 1, t_end = 2\<rparr>
   \<and> worker 0 5 (1 * 1000)
         [\<lparr>t_check = 0, t_start = 0, outcome = Some 1, t_end = 2\<rparr>,
          \<lparr>t_check = 2, t_start = 2, outcome = Some 1, t_end = 3\<rparr>] = Some (Inl IndexError)
   \<and> sync_worker 0 5 (1 * 1000)
         [\<lparr>t_check = 0, t_start = 0, outcome = Some 1, t_end = 2\<rparr>,
          \<lparr>t_check = 2, t_start = 2, outcome = Some 1, t_end = 3\<rparr>] = Some (Inl IndexError)"
proof -
  let ?a = "\<lparr>t_check = 0, t_start = 0, outcome = Some 1, t_end = 1 / 100\<rparr>"
  let ?b = "\<lparr>t_check = 1, t_start = 1, outcome = None, t_end = 1\<rparr>"
  let ?c = "\<lparr>t_check = 0, t_start = 0, outcome = Some 1, t_end = 2\<rparr>"
  let ?d = "\<lparr>t_check = 2, t_start = 2, outcome = Some 1, t_end = 3\<rparr>"
  let ?z = "replicate 100000 (0::int)"
  have a: "?a \<in> set (takeWhile (\<lambda>ob. t_check ob - 0 < of_int 1) [?a, ?b])"
    by simp
  have z: "np_zeros (1 * 1000 * 100) = Inr ?z \<and> length ?z = length ?z
      \<and> bucket_incr ?z 1000 = Inr (?z[1000 := 1])"
    by (simp add: np_zeros_def bucket_incr_def np_index_def)
  have big: "(1::int) * 100000 \<le> req_time ?c"
    by (simp add: req_time_def py_round_def)
  have c: "(0::int) \<le> 1 \<and>
      (\<forall>ob \<in> set (takeWhile (\<lambda>ob. t_check ob - 0 < of_int 5) [?c, ?d]). outcome ob \<noteq> None) \<and>
      (\<exists>ob \<in> set (takeWhile (\<lambda>ob. t_check ob - 0 < of_int 5) [?c, ?d]).
         1 * 100000 \<le> req_time ob)"
    using big by simp
  note t1 = histogram_bucket_range [of 0 1 2 "[?a, ?b]" 1 1 "(replicate 200000 0)[1000 := 1]"
      "Finite 1000" 1000]
  note t2 = histogram_bucket_range [of 0 5 1 "[?c, ?d]" _ _ _ _ _ ?z ?z 1000 "?z[1000 := 1]"]
  from t1 one_sample a
  have "int (length ((replicate 200000 (0::int))[1000 := 1])) = 2 * 100000
    \<and> (\<exists>k. np_index (length ((replicate 200000 (0::int))[1000 := 1])) (req_time ?a) = Inr k
          \<and> int k \<le> 2 * 100000 - 1)"
    by blast
  moreover from t2 z
  have "length (?z[1000 := 1]) = length ?z
    \<and> (\<exists>k. int k \<le> 1 * 100000 - 1 \<and> ?z[1000 := 1] = ?z[k := ?z ! k + 1])"
    by blast
  moreover from t2 c
  have "worker 0 5 (1 * 1000) [?c, ?d] = Some (Inl IndexError)
    \<and> sync_worker 0 5 (1 * 1000) [?c, ?d] = Some (Inl IndexError)"
    by metis
  ultimately show ?thesis using one_sample big z by blast
qed

text \<open>
  Claim C1, as stated, fails: with a timeout of 2 seconds a sample of 10 ms is recorded in
  bucket 1000, which is above \<open>2 * 100 - 1\<close>.
\<close>

theorem histogram_bucket_bound_counterexample:
  "worker 0 1 (2 * 1000)
     [\<lparr>t_check = 0, t_start = 0, outcome = Some 1, t_end = 1 / 100\<rparr>,
      \<lparr>t_check = 1, t_start = 1, outcome = None, t_end = 1\<rparr>]
   = Some (Inr (1, 1, (replicate 200000 0)[1000 := 1], Finite 1000, 1000))
   \<and> np_index (length ((replicate 200000 (0::int))[1000 := 1]))
        (req_time \<lparr>t_check = 0, t_start = 0, outcome = Some 1, t_end = 1 / 100\<rparr>) = Inr 1000
   \<and> \<not> (1000 \<le> 2 * 100 - (1::int))"
  by (simp add: worker_def np_zeros_def bucket_incr_def np_index_def req_time_def
      py_round_def Let_def)

subsection \<open>The course of a run\<close>

text \<open>When every call succeeds, all connections are opened, and all are closed.\<close>

lemma connect_loop_ok:
  "\<forall>i \<in> set js. connect_ok w i \<Longrightarrow> connect_loop w js conns = (map Connect js, Inr (conns @ js))"
  by (induction js arbitrary: conns) simp_all

lemma close_loop_ok:
  "\<forall>c \<in> set conns. close_ok w c \<Longrightarrow> close_loop w conns = (map Close conns, None)"
  by (induction conns) simp_all

lemma close_loop_events: "ev \<in> set (fst (close_loop w conns)) \<Longrightarrow> \<not> is_admin ev"
  by (induction conns) (auto split: if_splits prod.splits)

text \<open>A worker whose observations let it leave its loop ends, and so do the passes.\<close>

lemma worker_loop_ends:
  "leaves_loop s d obs \<Longrightarrow> worker_loop s d q r h mn mx obs \<noteq> None"
proof (induction obs arbitrary: q r h mn mx)
  case Nil
  then show ?case by (simp add: leaves_loop_def)
next
  case (Cons ob obs)
  show ?case
  proof (cases "t_check ob - s < of_int d")
    case False
    then show ?thesis by simp
  next
    case True
    with Cons.prems have "leaves_loop s d obs"
      by (auto simp: leaves_loop_def)
    from Cons.IH [OF this] True show ?thesis
      by (simp add: Let_def split: option.splits sum.splits)
  qed
qed

lemma worker_ends: "leaves_loop s d obs \<Longrightarrow> worker s d t obs \<noteq> None"
  by (cases "np_zeros (t * 100)") (simp_all add: worker_def worker_loop_ends del: not_None_eq)

lemma gather_None: "gather xs = None \<longleftrightarrow> None \<in> set xs"
  by (induction xs) (auto split: option.splits sum.splits)

lemma do_run_events: "do_run w args ex ia conns q qa t p d = Some (evs, r) \<Longrightarrow> \<forall>ev \<in> set evs. is_launch ev"
  by (auto simp: do_run_def Let_def split: if_splits option.splits sum.splits)

lemma do_run_ends:
  assumes "\<forall>i < nat (args_concurrency args).
     leaves_loop (pass_start w p) (if ia then args_duration args else d) (worker_obs w p i)"
  shows "do_run w args ex ia conns q qa t p d \<noteq> None"
proof -
  from assms have "None \<notin> set (map (\<lambda>i. worker (pass_start w p) (if ia then args_duration args else d) t
                                         (worker_obs w p i)) [0..<nat (args_concurrency args)])"
    by (auto simp del: not_None_eq dest!: worker_ends [where t = t] sym [of None])
  then have "gather (map (\<lambda>i. worker (pass_start w p) (if ia then args_duration args else d) t
                                         (worker_obs w p i)) [0..<nat (args_concurrency args)]) \<noteq> None"
    by (simp only: gather_None not_False_eq_True)
  then show ?thesis
    by (cases ia) (auto simp: do_run_def Let_def sync_worker_eq split: option.splits sum.splits)
qed

lemma run_passes_events:
  "run_passes w args ex ia conns q qa t = Some (evs, r) \<Longrightarrow> \<forall>ev \<in> set evs. is_launch ev"
  by (auto simp: run_passes_def split: if_splits option.splits sum.splits prod.splits dest!: do_run_events)

lemma run_passes_ends:
  assumes "passes_end w args ia"
  shows "run_passes w args ex ia conns q qa t \<noteq> None"
proof -
  from assms have m: "do_run w args ex ia conns q qa t Measured (args_duration args) \<noteq> None"
    by (intro do_run_ends) (simp add: passes_end_def)
  show ?thesis
  proof (cases "args_warmup_time args = 0")
    case True
    with m show ?thesis by (auto simp: run_passes_def)
  next
    case False
    with assms have "do_run w args ex ia conns q qa t Warmup (args_warmup_time args) \<noteq> None"
      by (intro do_run_ends) (simp add: passes_end_def)
    with m False show ?thesis
      by (auto simp: run_passes_def split: option.splits sum.splits prod.splits)
  qed
qed

lemma upt_connect_ok:
  "\<forall>i < n. connect_ok w i \<Longrightarrow> connect_loop w [0..<n] [] = (map Connect [0..<n], Inr [0..<n])"
  using connect_loop_ok [of "[0..<n]" w "[]"] by simp

text \<open>The run once the preparations have gone through.\<close>

lemma runner_after_connect:
  assumes "prepare_copy (startswith (placeholder_query af q0) ''COPY '') ex cex
             (placeholder_query af q0) qa0 = Inr (ex', qa)"
    and "\<forall>i < nat (args_concurrency args). connect_ok w i"
    and "run_setup w setup = (evs2, Inr adm)"
    and "run_passes w args ex' ia [0..<nat (args_concurrency args)] (placeholder_query af q0) qa
           (args_timeout args * 1000) = Some passes"
    and "try_body w args (startswith (placeholder_query af q0) ''COPY '') adm qa
           [0..<nat (args_concurrency args)] passes = body"
  shows "runner w args cn ex cex ia af q0 qa0 setup teardown =
     Some (map Connect [0..<nat (args_concurrency args)] @ evs2 @ fst body
             @ fst (run_teardown w teardown adm),
           case snd (run_teardown w teardown adm) of Some e \<Rightarrow> Inl e | None \<Rightarrow> snd body)"
  using assms(1,3,4,5) upt_connect_ok [OF assms(2)]
  by (simp add: runner_def Let_def try_finally_def)

lemma try_body_error:
  "try_body w args ic adm qa conns (evsp, Inl e) =
     (evsp @ fst (close_loop w conns),
      Inl (case snd (close_loop w conns) of Some e' \<Rightarrow> e' | None \<Rightarrow> e))"
  by (simp add: try_body_def try_finally_def Let_def split: option.splits)

lemma try_body_no_admin_conn:
  "fst (try_body w args ic False qa conns passes) = fst passes @ fst (close_loop w conns)"
proof (cases "snd (try_finally passes (close_loop w conns))")
  case (Inl e)
  then show ?thesis by (simp add: try_body_def Let_def) (simp add: try_finally_def)
next
  case (Inr rd)
  have "fst (make_report w args ic False qa rd) = []"
    by (auto simp: make_report_def copy_check_def split: sum.splits prod.splits option.splits)
  then obtain r where "make_report w args ic False qa rd = ([], r)"
    by (cases "make_report w args ic False qa rd") simp
  with Inr show ?thesis by (simp add: try_body_def Let_def) (simp add: try_finally_def)
qed

lemma try_body_events:
  assumes "\<forall>ev \<in> set (fst passes). is_launch ev"
  shows "\<forall>ev \<in> set (fst (try_body w args ic False qa conns passes)). \<not> is_admin ev"
proof -
  have "\<not> is_admin ev" if "is_launch ev" for ev
    using that by (cases ev) simp_all
  with assms show ?thesis
    by (auto simp: try_body_no_admin_conn dest: close_loop_events)
qed

text \<open>
  Claim C3. When a pass ends in an error \<open>e\<close> (a call of the executor has raised) and the
  close calls succeed, the run is, whether the job has a setup statement or not: the
  connections, the setup if there is one, the launches of the passes, and the close of
  every connection. When setup was run and there is a teardown statement, the teardown
  statement follows, once and last, and then \<open>e\<close> leaves the runner. (With a teardown
  statement and no setup the error that leaves the runner is \<^verbatim>\<open>UnboundLocalError\<close>.)
\<close>

theorem teardown_after_execution_error:
  assumes "prepare_copy (startswith (placeholder_query af q0) ''COPY '') ex cex
             (placeholder_query af q0) qa0 = Inr (ex', qa)"
    and "\<forall>i < nat (args_concurrency args). connect_ok w i \<and> close_ok w i"
    and "truthy setup \<longrightarrow> admin_connect_ok w \<and> admin_execute_ok w (the setup)"
    and "truthy setup \<and> truthy teardown \<longrightarrow> admin_execute_ok w (the teardown)"
    and "run_passes w args ex' ia [0..<nat (args_concurrency args)] (placeholder_query af q0) qa
           (args_timeout args * 1000) = Some (evsp, Inl e)"
  shows "runner w args cn ex cex ia af q0 qa0 setup teardown =
           Some (map Connect [0..<nat (args_concurrency args)]
                   @ (if truthy setup then [AdminConnect, AdminExecute (the setup)] else [])
                   @ evsp
                   @ map Close [0..<nat (args_concurrency args)]
                   @ (if truthy setup \<and> truthy teardown then [AdminExecute (the teardown)]
                      else []),
                 Inl (if truthy teardown \<and> \<not> truthy setup then UnboundLocalError else e))
         \<and> (\<forall>ev \<in> set evsp. is_launch ev)"
proof -
  from assms(3)
  have s: "run_setup w setup =
      (if truthy setup then [AdminConnect, AdminExecute (the setup)] else [], Inr (truthy setup))"
    by (simp add: run_setup_def)
  from assms(2) have c: "\<forall>i < nat (args_concurrency args). connect_ok w i"
    and cl: "close_loop w [0..<nat (args_concurrency args)]
               = (map Close [0..<nat (args_concurrency args)], None)"
    by (simp_all add: close_loop_ok)
  from assms(4)
  have t: "run_teardown w teardown (truthy setup) =
      (if truthy setup \<and> truthy teardown then [AdminExecute (the teardown)] else [],
       if truthy teardown \<and> \<not> truthy setup then Some UnboundLocalError else None)"
    by (simp add: run_teardown_def)
  from runner_after_connect [OF assms(1) c s assms(5) try_body_error] cl t
  have "runner w args cn ex cex ia af q0 qa0 setup teardown =
           Some (map Connect [0..<nat (args_concurrency args)]
                   @ (if truthy setup then [AdminConnect, AdminExecute (the setup)] else [])
                   @ evsp
                   @ map Close [0..<nat (args_concurrency args)]
                   @ (if truthy setup \<and> truthy teardown then [AdminExecute (the teardown)]
                      else []),
                 Inl (if truthy teardown \<and> \<not> truthy setup then UnboundLocalError else e))"
    by simp
  with run_passes_events [OF assms(5)] show ?thesis by blast
qed

text \<open>
  Claim C10. A job with a teardown statement and no setup statement passes the validation
  of the main program; once the connections are open and the passes have come to an end,
  the run ends in \<^verbatim>\<open>UnboundLocalError\<close>, and nothing was done on an administrative
  connection: the teardown statement is not executed.
\<close>

theorem teardown_without_setup_unbound:
  assumes "truthy (job_query qd)" and "\<not> truthy (job_setup qd)" and "truthy (job_teardown qd)"
    and "select_driver driver (the (job_query qd)) = Inr (cn, ex, cex, ia, af)"
    and "prepare_copy (startswith (placeholder_query af (the (job_query qd))) ''COPY '') ex cex
             (placeholder_query af (the (job_query qd)))
             (case job_args qd of None \<Rightarrow> [] | Some a \<Rightarrow> a) = Inr (ex', qa)"
    and "\<forall>i < nat (args_concurrency args). connect_ok w i"
    and "passes_end w args ia"
  shows "\<exists>evs. main w args driver qd = Some (evs, Inl UnboundLocalError)
           \<and> (\<forall>ev \<in> set evs. \<not> is_admin ev)"
proof -
  let ?q = "placeholder_query af (the (job_query qd))"
  let ?conns = "[0..<nat (args_concurrency args)]"
  from assms(1-4) have m: "main w args driver qd =
      runner w args cn ex cex ia af (the (job_query qd))
        (case job_args qd of None \<Rightarrow> [] | Some a \<Rightarrow> a) (job_setup qd) (job_teardown qd)"
    by (simp add: main_def Let_def)
  from assms(2) have s: "run_setup w (job_setup qd) = ([], Inr False)"
    by (simp add: run_setup_def)
  from assms(3) have t: "run_teardown w (job_teardown qd) False = ([], Some UnboundLocalError)"
    by (simp add: run_teardown_def)
  from run_passes_ends [OF assms(7), of ex' ?conns ?q qa "args_timeout args * 1000"]
  obtain evsp r
    where p: "run_passes w args ex' ia ?conns ?q qa (args_timeout args * 1000) = Some (evsp, r)"
    by fastforce
  define body where "body = try_body w args (startswith ?q ''COPY '') False qa ?conns (evsp, r)"
  from runner_after_connect [OF assms(5,6) s p body_def [symmetric]] t
  have r: "runner w args cn ex cex ia af (the (job_query qd))
        (case job_args qd of None \<Rightarrow> [] | Some a \<Rightarrow> a) (job_setup qd) (job_teardown qd)
      = Some (map Connect ?conns @ fst body, Inl UnboundLocalError)"
    by simp
  from run_passes_events [OF p] have "\<forall>ev \<in> set (fst body). \<not> is_admin ev"
    unfolding body_def by (intro try_body_events) simp
  then have "\<forall>ev \<in> set (map Connect ?conns @ fst body). \<not> is_admin ev"
    by auto
  with m r show ?thesis by metis
qed

text \<open>
  Claim C9. A job with a setup statement and no teardown statement is rejected by the main
  program: it prints one message and leaves with status 1, and the run has no other
  event, so no connection is opened.
\<close>

theorem setup_without_teardown_rejected:
  assumes "truthy (job_setup qd)" and "\<not> truthy (job_teardown qd)"
  shows "\<exists>msg. main w args driver qd = Some ([Stderr msg], Inl (SystemExit 1))"
  using assms by (simp add: main_def die_def)

text \<open>The definitions to unfold when a concrete run is evaluated.\<close>

lemmas eval_defs = small_args_def third_fails_def env_ok_def turn_def failing_turn_def leave_at_def
  placeholder_query_def startswith_def is_digit_def prepare_copy_def truthy_def
  run_passes_def do_run_def sync_worker_def worker_def np_zeros_def bucket_incr_def np_index_def
  req_time_def py_round_def Let_def make_report_def aggregate_def np_add_def copy_check_def

lemma select_one_prepared: "prepare_copy (startswith (placeholder_query ''python'' ''select 1'') ''COPY '')
             psycopg_execute (Some psycopg_copy)
             (placeholder_query ''python'' ''select 1'') [] = Inr (psycopg_execute, [])"
  by (simp add: eval_defs)

lemma third_fails_passes: "run_passes (env_ok third_fails) small_args psycopg_execute False
             [0..<nat (args_concurrency small_args)]
             (placeholder_query ''python'' ''select 1'') [] (args_timeout small_args * 1000)
           = Some ([Launch psycopg_execute 0 ''select 1'' [] 0 1 1000,
                    Launch psycopg_execute 1 ''select 1'' [] 0 1 1000], Inl ExecutionError)"
  by (simp add: eval_defs upt_rec)

theorem teardown_after_execution_error_witness:
  "runner (env_ok third_fails) small_args psycopg_connect psycopg_execute (Some psycopg_copy)
     False ''python'' ''select 1'' [] (Some ''create table t (a int)'') (Some ''drop table t'')
   = Some ([Connect 0, Connect 1, AdminConnect, AdminExecute ''create table t (a int)'',
            Launch psycopg_execute 0 ''select 1'' [] 0 1 1000,
            Launch psycopg_execute 1 ''select 1'' [] 0 1 1000,
            Close 0, Close 1, AdminExecute ''drop table t''],
           Inl ExecutionError)
   \<and> runner (env_ok third_fails) small_args psycopg_connect psycopg_execute (Some psycopg_copy)
     False ''python'' ''select 1'' [] None None
   = Some ([Connect 0, Connect 1,
            Launch psycopg_execute 0 ''select 1'' [] 0 1 1000,
            Launch psycopg_execute 1 ''select 1'' [] 0 1 1000,
            Close 0, Close 1],
           Inl ExecutionError)"
proof -
  have c: "\<forall>i < nat (args_concurrency small_args).
      connect_ok (env_ok third_fails) i \<and> close_ok (env_ok third_fails) i"
    by (simp add: env_ok_def)
  have s: "truthy (Some ''create table t (a int)'') \<longrightarrow>
      admin_connect_ok (env_ok third_fails) \<and>
      admin_execute_ok (env_ok third_fails) (the (Some ''create table t (a int)''))"
    "truthy (Some ''create table t (a int)'') \<and> truthy (Some ''drop table t'') \<longrightarrow>
      admin_execute_ok (env_ok third_fails) (the (Some ''drop table t''))"
    by (simp_all add: env_ok_def)
  have n: "truthy None \<longrightarrow>
      admin_connect_ok (env_ok third_fails) \<and> admin_execute_ok (env_ok third_fails) (the None)"
    "truthy None \<and> truthy None \<longrightarrow> admin_execute_ok (env_ok third_fails) (the None)"
    by (simp_all add: truthy_def)
  from teardown_after_execution_error [OF select_one_prepared c s third_fails_passes,
      of psycopg_connect]
    teardown_after_execution_error [OF select_one_prepared c n third_fails_passes,
      of psycopg_connect]
  show ?thesis by (simp add: small_args_def upt_rec truthy_def)
qed

text \<open>A connector call that raises ends the run; nothing is closed.\<close>

lemma connect_loop_fails:
  "\<forall>i \<in> set js. connect_ok w i \<Longrightarrow> \<not> connect_ok w k \<Longrightarrow>
   connect_loop w (js @ k # ks) conns = (map Connect js, Inl ConnectionError)"
  by (induction js arbitrary: conns) simp_all

lemma runner_connect_fails:
  assumes "prepare_copy (startswith (placeholder_query af q0) ''COPY '') ex cex
             (placeholder_query af q0) qa0 = Inr (ex', qa)"
    and "k < nat (args_concurrency args)" and "\<forall>i < k. connect_ok w i" and "\<not> connect_ok w k"
  shows "runner w args cn ex cex ia af q0 qa0 setup teardown =
           Some (map Connect [0..<k], Inl ConnectionError)"
proof -
  from assms(2) have "[0..<nat (args_concurrency args)] = [0..<k] @ k # [Suc k..<nat (args_concurrency args)]"
    by (metis less_imp_le_nat upt_add_eq_append upt_conv_Cons zero_le le_add_diff_inverse plus_nat.add_0)
  with connect_loop_fails [of "[0..<k]" w k "[Suc k..<nat (args_concurrency args)]" "[]"] assms(3,4)
  have "connect_loop w [0..<nat (args_concurrency args)] [] = (map Connect [0..<k], Inl ConnectionError)"
    by simp
  with assms(1) show ?thesis by (simp add: runner_def Let_def)
qed

text \<open>
  Claim C5, on the code: with two connections asked for, the first opened and the second
  attempt failing, the run ends with the connection error before anything else happens,
  and the connection that was opened is not closed.
\<close>

theorem connect_failure_leaks:
  "runner (env_ok third_fails\<lparr>connect_ok := (\<lambda>i. i \<noteq> 1)\<rparr>) small_args
     psycopg_connect psycopg_execute (Some psycopg_copy)
     False ''python'' ''select 1'' [] (Some ''create table t (a int)'') (Some ''drop table t'')
   = Some ([Connect 0], Inl ConnectionError)"
  by (simp add: runner_def eval_defs upt_rec)

theorem setup_without_teardown_rejected_witness:
  "truthy (job_setup setup_only) \<and> \<not> truthy (job_teardown setup_only) \<and>
   (\<exists>msg. main (env_ok third_fails) small_args ''asyncpg'' setup_only
            = Some ([Stderr msg], Inl (SystemExit 1)))"
proof -
  have h: "truthy (job_setup setup_only)" "\<not> truthy (job_teardown setup_only)"
    by (simp_all add: setup_only_def truthy_def)
  from setup_without_teardown_rejected [OF h] h show ?thesis by blast
qed

theorem teardown_without_setup_unbound_witness:
  "main (env_ok (\<lambda>p i. [leave_at 1])) small_args ''psycopg'' teardown_only
     = Some ([Connect 0, Connect 1,
              Launch psycopg_execute 0 ''select 1'' [] 0 1 1000,
              Launch psycopg_execute 1 ''select 1'' [] 0 1 1000,
              Close 0, Close 1], Inl UnboundLocalError)"
proof -
  let ?w = "env_ok (\<lambda>p i. [leave_at 1])"
  have a: "truthy (job_query teardown_only)" "\<not> truthy (job_setup teardown_only)"
    "truthy (job_teardown teardown_only)"
    by (simp_all add: teardown_only_def truthy_def)
  have b: "select_driver ''psycopg'' (the (job_query teardown_only))
      = Inr (psycopg_connect, psycopg_execute, Some psycopg_copy, False, ''python'')"
    by (simp add: select_driver_def)
  have c: "prepare_copy (startswith (placeholder_query ''python'' (the (job_query teardown_only)))
             ''COPY '') psycopg_execute (Some psycopg_copy)
             (placeholder_query ''python'' (the (job_query teardown_only)))
             (case job_args teardown_only of None \<Rightarrow> [] | Some a \<Rightarrow> a) = Inr (psycopg_execute, [])"
    by (simp add: teardown_only_def eval_defs)
  have d: "\<forall>i < nat (args_concurrency small_args). connect_ok ?w i"
    by (simp add: env_ok_def)
  have e: "passes_end ?w small_args False"
    by (simp add: passes_end_def leaves_loop_def eval_defs)
  have "fst (the (main ?w small_args ''psycopg'' teardown_only))
     = [Connect 0, Connect 1,
        Launch psycopg_execute 0 ''select 1'' [] 0 1 1000,
        Launch psycopg_execute 1 ''select 1'' [] 0 1 1000,
        Close 0, Close 1]"
    by (simp add: main_def runner_def teardown_only_def select_driver_def run_setup_def
        run_teardown_def try_body_def try_finally_def eval_defs upt_rec)
  with teardown_without_setup_unbound [OF a b c d e] show ?thesis by auto
qed

text \<open>The asynchronous branch of \<^verbatim>\<open>_do_run\<close> does not read \<^verbatim>\<open>run_duration\<close>.\<close>

lemma do_run_async_duration:
  "do_run w args ex True conns q qa t p d = do_run w args ex True conns q qa t p (args_duration args)"
  by (simp add: do_run_def)

text \<open>
  Claim C2, on the code: with a warm-up time of one second and a duration of two, the
  worker of the warm-up pass of an asynchronous driver is given the duration of two
  seconds and makes four turns, where the worker of a synchronous driver is given the
  warm-up time and makes two.
\<close>

theorem async_warmup_runs_for_duration:
  "do_run (env_ok (\<lambda>p i. half_second_turns)) warm_args asyncpg_execute True [0] ''select 1'' []
     1000 Warmup (args_warmup_time warm_args)
   = Some ([Launch asyncpg_execute 0 ''select 1'' [] 0 2 1000],
           Inr ([(4, 4, (replicate 100000 0)[100 := 4], Finite 100, 100)], 1))
   \<and> do_run (env_ok (\<lambda>p i. half_second_turns)) warm_args psycopg_execute False [0] ''select 1'' []
     1000 Warmup (args_warmup_time warm_args)
   = Some ([Launch psycopg_execute 0 ''select 1'' [] 0 1 1000],
           Inr ([(2, 2, (replicate 100000 0)[100 := 2], Finite 100, 100)], 1))"
  by (simp add: warm_args_def half_second_turns_def eval_defs)

lemma match_copy_t: "match_copy ''COPY t (a, b)'' = Some (''t'', ''a, b'')"
  by (simp add: match_copy_def startswith_def is_word_def is_digit_def is_space_def Let_def)

text \<open>With an administrative connection, the check is the one of the claim.\<close>

lemma copy_check_with_admin_conn:
  assumes "fetchval_result w = Some rowcount"
  shows "copy_check w True (JList payload # rest @ [JObj [(''table'', JStr t), c]]) queries =
           ([Fetchval t, Stderr_int rowcount],
            if rowcount < int (length payload) * queries
            then Some (RuntimeError ''COPY did not insert the expected number of rows'')
            else None)"
  using assms by (simp add: copy_check_def)

text \<open>
  Claim C8, on the code: a COPY job with no setup statement. The payload is five copies of
  the row and the table and columns are appended, as the claim says; but the check after
  the run ends in \<^verbatim>\<open>UnboundLocalError\<close> before the row count is asked for, although the
  table has fewer rows (none) than the five that the one query should have inserted.
\<close>

theorem copy_check_without_setup:
  "main (env_ok (\<lambda>p i. [turn 0 (1 / 1000) 5, leave_at 1])) copy_args ''psycopg'' copy_job
   = Some ([Connect 0,
            Launch psycopg_copy 0 ''COPY t (a, b)''
              [JList (replicate 5 (JList [JInt 1, JStr ''x''])),
               JObj [(''table'', JStr ''t''), (''columns'', JList [JStr ''a'', JStr ''b''])]]
              0 1 1000,
            Close 0],
           Inl UnboundLocalError)"
  by (simp add: main_def runner_def copy_job_def copy_args_def select_driver_def run_setup_def
        run_teardown_def try_body_def try_finally_def copy_rows_def match_copy_t strip_def is_space_def
        eval_defs)

subsection \<open>The aggregation\<close>

text \<open>The aggregation loop in closed form, for histograms of one length.\<close>

lemma Min_insert2:
  "finite S \<Longrightarrow> Min (insert (min a b) S) = Min (insert b (insert (a::'a::linorder) S))"
  by (cases "S = {}") (auto simp: min_def)

lemma Max_insert2:
  "finite S \<Longrightarrow> Max (insert (max a b) S) = Max (insert b (insert (a::'a::linorder) S))"
  by (cases "S = {}") (auto simp: max_def)

lemma lat_min: "(if lat_less a b then a else b) = min a b"
  by (auto simp: min_def less_eq_latency_def lat_le_def)
     (cases a; cases b; auto)+

lemma aggregate_loop_closed:
  assumes "\<forall>r \<in> set rs. length (res_stats r) = n"
    and "case ls of None \<Rightarrow> True | Some l \<Rightarrow> length l = n"
  shows "aggregate_loop rs q rw ls mn mx =
     Inr (q + sum_list (map res_queries rs), rw + sum_list (map res_rows rs),
          (case ls of
             None \<Rightarrow> if rs = [] then None else Some (hist_total n rs)
           | Some l \<Rightarrow> Some (map2 (+) l (hist_total n rs))),
          Min (insert mn (res_min ` set rs)), Max (insert mx (res_max ` set rs)))"
  using assms
proof (induction rs arbitrary: q rw ls mn mx)
  case Nil
  then show ?case
    by (auto simp: hist_total_def split: option.splits intro!: nth_equalityI)
next
  case (Cons r rs)
  obtain tq tr th tmn tmx where r: "r = (tq, tr, th, tmn, tmx)"
    by (cases r) auto
  from Cons.prems r have th: "length th = n" and rs: "\<forall>r \<in> set rs. length (res_stats r) = n"
    by simp_all
  define l' where "l' = (case ls of None \<Rightarrow> th | Some l \<Rightarrow> map2 (+) l th)"
  from Cons.prems(2) th have l': "length l' = n"
    and step: "(case ls of None \<Rightarrow> Inr th | Some l \<Rightarrow> np_add l th) = Inr l'"
    by (auto simp: l'_def np_add_def split: option.splits)
  have h: "map2 (+) l' (hist_total n rs) =
      (case ls of None \<Rightarrow> hist_total n (r # rs) | Some l \<Rightarrow> map2 (+) l (hist_total n (r # rs)))"
    using Cons.prems(2) th
    by (auto simp: l'_def hist_total_def r split: option.splits intro!: nth_equalityI)
  have "aggregate_loop (r # rs) q rw ls mn mx =
      aggregate_loop rs (q + tq) (rw + tr) (Some l') (min tmn mn) (max tmx mx)"
    by (simp add: r step lat_min max_def)
  also have "\<dots> = Inr (q + tq + sum_list (map res_queries rs), rw + tr + sum_list (map res_rows rs),
          Some (map2 (+) l' (hist_total n rs)),
          Min (insert (min tmn mn) (res_min ` set rs)), Max (insert (max tmx mx) (res_max ` set rs)))"
    using Cons.IH [OF rs, of "Some l'"] l' by simp
  finally show ?case
    by (simp add: h r Min_insert2 Max_insert2 split: option.splits)
qed

lemma aggregate_closed:
  assumes "\<forall>r \<in> set rs. length (res_stats r) = n"
  shows "aggregate rs =
     Inr (sum_list (map res_queries rs), sum_list (map res_rows rs),
          (if rs = [] then None else Some (hist_total n rs)),
          Min (insert Infinity (res_min ` set rs)), Max (insert 0 (res_max ` set rs)))"
  using aggregate_loop_closed [OF assms, of None 0 0 Infinity 0]
  by (simp add: aggregate_def)

text \<open>Permutations, bounds and groups.\<close>

lemma hist_total_length: "length (hist_total n rs) = n"
  by (simp add: hist_total_def)

lemma sum_list_map_mset:
  "mset xs = mset ys \<Longrightarrow> sum_list (map f xs) = (sum_list (map f ys) :: int)"
proof -
  assume "mset xs = mset ys"
  then have "sum_mset (image_mset f (mset xs)) = sum_mset (image_mset f (mset ys))" by simp
  then show ?thesis by (simp add: sum_mset_sum_list flip: mset_map)
qed

lemma aggregate_permuted:
  assumes "\<forall>r \<in> set rs. length (res_stats r) = n" and "mset rs' = mset rs"
  shows "aggregate rs' = aggregate rs"
proof -
  from assms(2) have s: "set rs' = set rs" by (rule mset_eq_setD)
  from assms(2) have e: "rs' = [] \<longleftrightarrow> rs = []" by (metis mset_zero_iff)
  from s assms(1) have "\<forall>r \<in> set rs'. length (res_stats r) = n" by simp
  from aggregate_closed [OF this] aggregate_closed [OF assms(1)] show ?thesis
    by (simp add: s e hist_total_def sum_list_map_mset [OF assms(2)])
qed

lemma aggregate_bounds:
  assumes "\<forall>r \<in> set rs. length (res_stats r) = n"
    and "aggregate rs = Inr (q, rw, ls, mn, mx)" and "r \<in> set rs"
  shows "lat_le mn (res_min r) \<and> res_max r \<le> mx"
proof -
  from aggregate_closed [OF assms(1)] assms(2)
  have "mn = Min (insert Infinity (res_min ` set rs))"
    and "mx = Max (insert 0 (res_max ` set rs))" by simp_all
  with assms(3) have "mn \<le> res_min r" and "res_max r \<le> mx" by simp_all
  then show ?thesis by (simp add: less_eq_latency_def)
qed

lemma merged_closed:
  assumes "\<forall>r \<in> set g. length (res_stats r) = n" and "g \<noteq> []"
  shows "merged g = Some (sum_list (map res_queries g), sum_list (map res_rows g),
          hist_total n g,
          Min (insert Infinity (res_min ` set g)), Max (insert 0 (res_max ` set g)))"
  using aggregate_closed [OF assms(1)] assms(2) by (simp add: merged_def)

lemma Min_insert_Un:
  "finite A \<Longrightarrow> finite B \<Longrightarrow>
   Min (insert (a::'a::linorder) (A \<union> B)) = min (Min (insert a A)) (Min (insert a B))"
  using Min_Un [of "insert a A" "insert a B"] by simp

lemma Max_insert_Un:
  "finite A \<Longrightarrow> finite B \<Longrightarrow>
   Max (insert (a::'a::linorder) (A \<union> B)) = max (Max (insert a A)) (Max (insert a B))"
  using Max_Un [of "insert a A" "insert a B"] by simp

lemma aggregate_grouped:
  assumes "\<forall>r \<in> set (concat gs). length (res_stats r) = n" and "[] \<notin> set gs"
  shows "\<exists>ms. map merged gs = map Some ms \<and> aggregate ms = aggregate (concat gs)"
proof -
  define m where "m g = (sum_list (map res_queries g), sum_list (map res_rows g),
          hist_total n g,
          Min (insert Infinity (res_min ` set g)), Max (insert 0 (res_max ` set g)))"
    for g :: "worker_result list"
  have mg: "merged g = Some (m g)" if "g \<in> set gs" for g
    unfolding m_def using that assms by (intro merged_closed) auto
  then have 1: "map merged gs = map Some (map m gs)" by simp
  have len: "\<forall>r \<in> set (map m gs). length (res_stats r) = n"
    by (auto simp: m_def hist_total_length)
  have q: "sum_list (map res_queries (map m gs)) = sum_list (map res_queries (concat gs))"
    by (induction gs) (simp_all add: m_def)
  have r: "sum_list (map res_rows (map m gs)) = sum_list (map res_rows (concat gs))"
    by (induction gs) (simp_all add: m_def)
  have e: "map m gs = [] \<longleftrightarrow> concat gs = []"
    using assms(2) by (induction gs) auto
  have h: "hist_total n (map m gs) = hist_total n (concat gs)"
  proof -
    have "sum_list (map (\<lambda>r. res_stats r ! k) (map m gs))
        = sum_list (map (\<lambda>r. res_stats r ! k) (concat gs))" if "k < n" for k
      using that by (induction gs) (simp_all add: m_def hist_total_def)
    then show ?thesis by (simp add: hist_total_def)
  qed
  have rm: "res_min (m g) = Min (insert Infinity (res_min ` set g))" for g
    by (simp add: m_def)
  have rx: "res_max (m g) = Max (insert 0 (res_max ` set g))" for g
    by (simp add: m_def)
  have mn: "Min (insert Infinity (res_min ` set (map m gs)))
      = Min (insert Infinity (res_min ` set (concat gs)))"
  proof (induction gs)
    case Nil
    then show ?case by simp
  next
    case (Cons g gs)
    have "insert Infinity (res_min ` set (map m (g # gs)))
        = insert (res_min (m g)) (insert Infinity (res_min ` set (map m gs)))"
      by auto
    then have "Min (insert Infinity (res_min ` set (map m (g # gs))))
        = min (res_min (m g)) (Min (insert Infinity (res_min ` set (map m gs))))"
      using Min_insert [of "insert Infinity (res_min ` set (map m gs))" "res_min (m g)"]
      by (simp del: Min_insert)
    also have "\<dots> = min (Min (insert Infinity (res_min ` set g)))
                      (Min (insert Infinity (res_min ` set (concat gs))))"
      by (simp only: Cons.IH rm)
    also have "\<dots> = Min (insert Infinity (res_min ` set (concat (g # gs))))"
      by (simp add: Min_insert_Un image_Un del: Min_insert)
    finally show ?case .
  qed
  have mx: "Max (insert 0 (res_max ` set (map m gs)))
      = Max (insert 0 (res_max ` set (concat gs)))"
  proof (induction gs)
    case Nil
    then show ?case by simp
  next
    case (Cons g gs)
    have "insert 0 (res_max ` set (map m (g # gs)))
        = insert (res_max (m g)) (insert 0 (res_max ` set (map m gs)))"
      by auto
    then have "Max (insert 0 (res_max ` set (map m (g # gs))))
        = max (res_max (m g)) (Max (insert 0 (res_max ` set (map m gs))))"
      using Max_insert [of "insert 0 (res_max ` set (map m gs))" "res_max (m g)"]
      by (simp del: Max_insert)
    also have "\<dots> = max (Max (insert 0 (res_max ` set g)))
                      (Max (insert 0 (res_max ` set (concat gs))))"
      by (simp only: Cons.IH rx)
    also have "\<dots> = Max (insert 0 (res_max ` set (concat (g # gs))))"
      by (simp add: Max_insert_Un image_Un del: Max_insert)
    finally show ?case .
  qed
  from aggregate_closed [OF len] aggregate_closed [OF assms(1)]
  have "aggregate (map m gs) = aggregate (concat gs)"
    by (simp only: q r e h mn mx)
  with 1 show ?thesis by blast
qed

text \<open>
  Claim C4. For results whose histograms all have \<open>n\<close> buckets, the aggregation gives the
  sum of the queries, the sum of the rows, the element-wise sum of the histograms, the
  least of the minima (and infinity) and the greatest of the maxima (and zero); it gives
  the same for every permutation of the results and for the merges of the groups of every
  partition into non-empty groups; the minimum is at most every worker's minimum and the
  maximum at least every worker's maximum.
\<close>

theorem aggregate_merge:
  assumes "\<forall>r \<in> set rs. length (res_stats r) = n"
  shows "aggregate rs =
           Inr (sum_list (map res_queries rs), sum_list (map res_rows rs),
                (if rs = [] then None else Some (hist_total n rs)),
                Min (insert Infinity (res_min ` set rs)), Max (insert 0 (res_max ` set rs)))
         \<and> (\<forall>rs'. mset rs' = mset rs \<longrightarrow> aggregate rs' = aggregate rs)
         \<and> (\<forall>gs. concat gs = rs \<and> [] \<notin> set gs \<longrightarrow>
               (\<exists>ms. map merged gs = map Some ms \<and> aggregate ms = aggregate rs))
         \<and> (\<forall>r \<in> set rs. \<forall>q rw ls mn mx. aggregate rs = Inr (q, rw, ls, mn, mx) \<longrightarrow>
               lat_le mn (res_min r) \<and> res_max r \<le> mx)"
proof (intro conjI allI impI ballI)
  show "aggregate rs =
           Inr (sum_list (map res_queries rs), sum_list (map res_rows rs),
                (if rs = [] then None else Some (hist_total n rs)),
                Min (insert Infinity (res_min ` set rs)), Max (insert 0 (res_max ` set rs)))"
    by (rule aggregate_closed [OF assms])
next
  fix rs' assume "mset rs' = mset rs"
  with assms show "aggregate rs' = aggregate rs" by (rule aggregate_permuted)
next
  fix gs assume "concat gs = rs \<and> [] \<notin> set gs"
  with assms aggregate_grouped [of gs n]
  show "\<exists>ms. map merged gs = map Some ms \<and> aggregate ms = aggregate rs" by blast
next
  fix r q rw ls mn mx
  assume "r \<in> set rs" and "aggregate rs = Inr (q, rw, ls, mn, mx)"
  with aggregate_bounds [OF assms] show "lat_le mn (res_min r)" and "res_max r \<le> mx"
    by blast+
qed

theorem aggregate_merge_witness:
  "aggregate three_results = Inr (3, 4, Some [2, 1], Finite 3, 7)
   \<and> aggregate [(0, 0, [0, 0], Infinity, 0), (1, 2, [1, 0], Finite 5, 5),
                 (2, 2, [1, 1], Finite 3, 7)] = aggregate three_results
   \<and> (\<exists>ms. map merged [[(1, 2, [1, 0], Finite 5, 5)],
                          [(2, 2, [1, 1], Finite 3, 7), (0, 0, [0, 0], Infinity, 0)]]
              = map Some ms \<and> aggregate ms = aggregate three_results)
   \<and> lat_le (Finite 3) (res_min (1, 2, [1, 0], Finite 5, 5))
   \<and> res_max (1, 2, [1, 0], Finite 5, 5) \<le> 7"
proof -
  have h: "\<forall>r \<in> set three_results. length (res_stats r) = 2"
    by (simp add: three_results_def)
  have a: "aggregate three_results = Inr (3, 4, Some [2, 1], Finite 3, 7)"
    by (simp add: three_results_def aggregate_def np_add_def)
  have p: "mset [(0, 0, [0, 0], Infinity, 0), (1, 2, [1, 0], Finite 5, 5),
                 (2, 2, [1, 1], Finite 3, 7)] = mset three_results"
    by (simp add: three_results_def)
  have g: "concat [[(1, 2, [1, 0], Finite 5, 5)],
                   [(2, 2, [1, 1], Finite 3, 7), (0, 0, [0, 0], Infinity, 0)]] = three_results
      \<and> [] \<notin> set [[(1, 2, [1, 0], Finite 5, 5)],
                   [(2, 2, [1, 1], Finite 3, 7), (0, 0, [0, 0], Infinity, 0)]]"
    by (simp add: three_results_def)
  have m: "(1, 2, [1, 0], Finite 5, 5) \<in> set three_results"
    by (simp add: three_results_def)
  note t = aggregate_merge [OF h]
  from t p have "aggregate [(0, 0, [0, 0], Infinity, 0), (1, 2, [1, 0], Finite 5, 5),
                 (2, 2, [1, 1], Finite 3, 7)] = aggregate three_results"
    by blast
  moreover from t g have "\<exists>ms. map merged [[(1, 2, [1, 0], Finite 5, 5)],
                          [(2, 2, [1, 1], Finite 3, 7), (0, 0, [0, 0], Infinity, 0)]]
              = map Some ms \<and> aggregate ms = aggregate three_results"
    by blast
  moreover from t m a have "lat_le (Finite 3) (res_min (1, 2, [1, 0], Finite 5, 5))
      \<and> res_max (1, 2, [1, 0], Finite 5, 5) \<le> 7"
    by blast
  ultimately show ?thesis using a by blast
qed

subsection \<open>The run with the stub adapter\<close>













end
